theory Spec2Isabelle
  imports Complex_Main
begin

section \<open>Strings, character classes and the two line grammars\<close>

text \<open>
  A JavaScript string is modelled as a \<open>string\<close>, one \<open>char\<close> per code unit, for code
  units 0 to 255. The classes below are the regular expression classes of the source
  (no \<open>u\<close> or \<open>i\<close> flag): \<open>\w\<close> is \<open>[A-Za-z0-9_]\<close>, \<open>\d\<close> is \<open>[0-9]\<close>, and
  \<open>\s\<close>, which is also the set that \<open>String.prototype.trim\<close> strips, is tab, line feed,
  vertical tab, form feed, carriage return, space and no-break space (the members of
  the class below code unit 256).
\<close>

definition is_digit :: "char \<Rightarrow> bool" where
  "is_digit c = (let n = (of_char c :: nat) in 48 \<le> n \<and> n \<le> 57)"

definition is_word :: "char \<Rightarrow> bool" where
  "is_word c = (let n = (of_char c :: nat) in
     (48 \<le> n \<and> n \<le> 57) \<or> (65 \<le> n \<and> n \<le> 90) \<or> n = 95 \<or> (97 \<le> n \<and> n \<le> 122))"

definition is_space :: "char \<Rightarrow> bool" where
  "is_space c = (let n = (of_char c :: nat) in (9 \<le> n \<and> n \<le> 13) \<or> n = 32 \<or> n = 160)"

text \<open>The class \<open>[\w.]\<close> of the value token.\<close>

definition is_value_char :: "char \<Rightarrow> bool" where
  "is_value_char c = (is_word c \<or> c = CHR ''.'')"

text \<open>\<open>s.trim()\<close>\<close>

definition trim :: "string \<Rightarrow> string" where
  "trim s = rev (dropWhile is_space (rev (dropWhile is_space s)))"

text \<open>\<open>s.split('\n')\<close>: never empty, \<open>''.split('\n')\<close> is \<open>['']\<close>.\<close>

fun split_nl :: "string \<Rightarrow> string list" where
  "split_nl [] = [[]]"
| "split_nl (c # cs) =
     (if c = CHR 0x0A then [] # split_nl cs
      else (case split_nl cs of [] \<Rightarrow> [[c]] | l # ls \<Rightarrow> (c # l) # ls))"

text \<open>\<open>s.startsWith(p)\<close> and \<open>s.includes(p)\<close>\<close>

definition startsWith :: "string \<Rightarrow> string \<Rightarrow> bool" where
  "startsWith s p = (take (length p) s = p)"

fun includes_str :: "string \<Rightarrow> string \<Rightarrow> bool" where
  "includes_str [] p = (p = [])"
| "includes_str (c # cs) p = (startsWith (c # cs) p \<or> includes_str cs p)"

text \<open>
  \<open>type.toLowerCase()\<close>, code unit by code unit: A to Z, and the upper-case letters of
  Latin-1 (192 to 222 except the multiplication sign 215), move up by 32.
\<close>

definition lower_char :: "char \<Rightarrow> char" where
  "lower_char c = (let n = (of_char c :: nat) in
     if (65 \<le> n \<and> n \<le> 90) \<or> (192 \<le> n \<and> n \<le> 222 \<and> n \<noteq> 215) then char_of (n + 32) else c)"

definition toLowerCase :: "string \<Rightarrow> string" where
  "toLowerCase s = map lower_char s"

text \<open>
  The tail \<open>\s+\((\d+),\s*(\d+)\)$\<close> of the component expression. The classes that
  follow one another are disjoint, so each greedy repetition can only succeed on the
  longest run: \<open>takeWhile\<close> is the capture and \<open>dropWhile\<close> what is left.
\<close>

definition match_position :: "string \<Rightarrow> (string \<times> string) option" where
  "match_position r =
     (if takeWhile is_space r = [] then None
      else case dropWhile is_space r of
        [] \<Rightarrow> None
      | c # r2 \<Rightarrow>
          if c \<noteq> CHR ''('' \<or> takeWhile is_digit r2 = [] then None
          else case dropWhile is_digit r2 of
            [] \<Rightarrow> None
          | d # r4 \<Rightarrow>
              let r5 = dropWhile is_space r4 in
              if d \<noteq> CHR '','' \<or> takeWhile is_digit r5 = [] then None
              else if dropWhile is_digit r5 = '')''
                then Some (takeWhile is_digit r2, takeWhile is_digit r5)
                else None)"

text \<open>
  What follows the type: \<open>(?:\s+([\w.]+))?(?:\s+\((\d+),\s*(\d+)\))?$\<close>. The result is
  the three captures value, x, y; \<open>None\<close> inside is JavaScript's \<open>undefined\<close> (the
  group did not take part in the match), \<open>None\<close> outside is no match.
\<close>

definition match_rest :: "string \<Rightarrow> (string option \<times> string option \<times> string option) option" where
  "match_rest r =
     (if r = [] then Some (None, None, None)
      else if takeWhile is_space r = [] then None
      else let r5 = dropWhile is_space r; v = takeWhile is_value_char r5;
               r6 = dropWhile is_value_char r5 in
        if v = [] then
          (case match_position r of
             None \<Rightarrow> None
           | Some (xs, ys) \<Rightarrow> Some (None, Some xs, Some ys))
        else if r6 = [] then Some (Some v, None, None)
        else (case match_position r6 of
             None \<Rightarrow> None
           | Some (xs, ys) \<Rightarrow> Some (Some v, Some xs, Some ys)))"

text \<open>
  \<open>line.match(/^(\w+):\s*(\w+)(?:\s+([\w.]+))?(?:\s+\((\d+),\s*(\d+)\))?$/)\<close>:
  the captures name, type, value, x, y, or \<open>None\<close> for \<open>null\<close>.
\<close>

definition componentMatch ::
  "string \<Rightarrow> (string \<times> string \<times> string option \<times> string option \<times> string option) option" where
  "componentMatch line =
     (if takeWhile is_word line = [] then None
      else case dropWhile is_word line of
        [] \<Rightarrow> None
      | c # r2 \<Rightarrow>
          let r3 = dropWhile is_space r2 in
          if c \<noteq> CHR '':'' \<or> takeWhile is_word r3 = [] then None
          else (case match_rest (dropWhile is_word r3) of
             None \<Rightarrow> None
           | Some (v, xs, ys) \<Rightarrow>
               Some (takeWhile is_word line, takeWhile is_word r3, v, xs, ys)))"

text \<open>\<open>line.match(/^(\w+)\s*->\s*(\w+)$/)\<close>: the captures from, to.\<close>

definition connectionMatch :: "string \<Rightarrow> (string \<times> string) option" where
  "connectionMatch line =
     (if takeWhile is_word line = [] then None
      else let r2 = dropWhile is_space (dropWhile is_word line) in
        if \<not> startsWith r2 ''->'' then None
        else let r3 = dropWhile is_space (drop 2 r2) in
          if takeWhile is_word r3 = [] \<or> dropWhile is_word r3 \<noteq> [] then None
          else Some (takeWhile is_word line, takeWhile is_word r3))"

section \<open>Values, records and the engine\<close>

text \<open>
  The JavaScript values that reach a coordinate field or a coordinate attribute.
  \<open>Num n\<close> is the number \<open>n\<close>, held exactly, for \<open>n\<close> up to \<open>2^53 = 9007199254740992\<close>;
  \<open>Approx n\<close> stands for the double that JavaScript holds where the exact value is
  \<open>n\<close>, above \<open>2^53\<close>: the rounding is not computed, the exact integer is kept in its
  place, so that two values which round to one double stay distinct here, and a sum
  carries the exact sum where the code rounds once more. Up to \<open>2^53\<close> the values are
  those of the code. \<open>PosObj x y\<close> is the object \<open>{x: x, y: y}\<close> that \<open>autoPosition\<close>
  returns; \<open>Str s\<close> is a string.
\<close>

datatype jsval = Num int | Approx int | PosObj int int | Str string

definition number :: "int \<Rightarrow> jsval" where
  "number n = (if n \<le> 9007199254740992 then Num n else Approx n)"

text \<open>
  A component record \<open>{name, type, value, x, y}\<close> and a connection record \<open>{from, to}\<close>;
  the fields carry a prefix, since \<open>x\<close>, \<open>y\<close>, \<open>type\<close>, \<open>value\<close> and \<open>from\<close> are wanted as
  variable names or are keywords.
\<close>

record component =
  c_name :: string
  c_type :: string
  c_value :: string
  c_x :: jsval
  c_y :: jsval

record connection =
  conn_from :: string
  conn_to :: string

text \<open>
  The fields of a \<open>CircuitEngine\<close> instance that the code below reads or writes. The
  zoom factor is a double; it is held as the rational number that the double denotes.
\<close>

record engine =
  components :: "component list"
  connections :: "connection list"
  zoom :: rat

text \<open>\<open>new CircuitEngine()\<close>\<close>

definition new_engine :: engine where
  "new_engine = \<lparr>components = [], connections = [], zoom = 1\<rparr>"

datatype error =
    EmptyInput      \<comment> \<open>\<open>Error('Please enter circuit code')\<close>\<close>
  | NoComponents    \<comment> \<open>\<open>Error('No valid components found in code')\<close>\<close>
  | TypeError string  \<comment> \<open>a call of a method that the class does not define\<close>

section \<open>The parser\<close>

text \<open>\<open>autoPosition()\<close>: one object holding both coordinates of the grid slot.\<close>

definition autoPosition :: "engine \<Rightarrow> jsval" where
  "autoPosition e =
     (let gridSize = 100; cols = 7; index = int (length (components e)) in
      PosObj (100 + (index mod cols) * gridSize) (100 + (index div cols) * gridSize))"

text \<open>
  \<open>parseInt(x)\<close> on a capture of \<open>(\d+)\<close>: \<open>None\<close> is \<open>NaN\<close>, the result for \<open>undefined\<close>;
  a string of digits gives its decimal value.
\<close>

definition digit_val :: "char \<Rightarrow> int" where
  "digit_val c = int (of_char c) - 48"

definition decimal :: "string \<Rightarrow> int" where
  "decimal ds = foldl (\<lambda>acc c. 10 * acc + digit_val c) 0 ds"

definition parseInt :: "string option \<Rightarrow> int option" where
  "parseInt x = (case x of None \<Rightarrow> None | Some ds \<Rightarrow> Some (decimal ds))"

text \<open>
  \<open>parseInt(x) || this.autoPosition()\<close>: the right operand is taken when the left one
  is falsy, that is \<open>NaN\<close> or \<open>0\<close>.
\<close>

definition coordinate :: "engine \<Rightarrow> string option \<Rightarrow> jsval" where
  "coordinate e x =
     (case parseInt x of
        None \<Rightarrow> autoPosition e
      | Some n \<Rightarrow> if n = 0 then autoPosition e else number n)"

text \<open>\<open>value || ''\<close>: an absent capture gives the empty string (a capture is never empty).\<close>

definition value_or_empty :: "string option \<Rightarrow> string" where
  "value_or_empty v = (case v of None \<Rightarrow> [] | Some s \<Rightarrow> s)"

text \<open>
  \<open>parseLine(line)\<close>, with its three parts in the order of the source: the component
  branch, the connection branch, and the closing "auto-connection" block, which tests
  \<open>componentMatch\<close> again and reads \<open>this.components[this.components.length]\<close>
  (\<open>undefined\<close> when the index is out of range).
\<close>

definition nth_opt :: "'a list \<Rightarrow> nat \<Rightarrow> 'a option" where
  "nth_opt xs i = (if i < length xs then Some (xs ! i) else None)"

definition parseLine :: "string \<Rightarrow> engine \<Rightarrow> engine" where
  "parseLine line e =
     (case componentMatch line of
        Some (name, type, v, xs, ys) \<Rightarrow>
          e\<lparr>components := components e @
              [\<lparr>c_name = name, c_type = toLowerCase type, c_value = value_or_empty v,
                c_x = coordinate e xs, c_y = coordinate e ys\<rparr>]\<rparr>
      | None \<Rightarrow>
         (case connectionMatch line of
            Some (f, t) \<Rightarrow>
              e\<lparr>connections := connections e @ [\<lparr>conn_from = f, conn_to = t\<rparr>]\<rparr>
          | None \<Rightarrow>
              if components e \<noteq> [] \<and> \<not> includes_str line ''->'' then
                (let lastComponent = last (components e) in
                 case componentMatch line of
                   None \<Rightarrow> e
                 | Some m \<Rightarrow>
                    (case nth_opt (components e) (length (components e)) of
                       None \<Rightarrow> e
                     | Some currentComponent \<Rightarrow>
                         e\<lparr>connections := connections e @
                            [\<lparr>conn_from = c_name lastComponent,
                              conn_to = c_name currentComponent\<rparr>]\<rparr>))
              else e))"

text \<open>The lines that \<open>parseCircuitCode\<close> keeps: not blank, not a comment.\<close>

definition keep_line :: "string \<Rightarrow> bool" where
  "keep_line line = (trim line \<noteq> [] \<and> \<not> startsWith (trim line) ''//'')"

definition code_lines :: "string \<Rightarrow> string list" where
  "code_lines code = map trim (filter keep_line (split_nl code))"

text \<open>The loop \<open>for (const line of lines) this.parseLine(line.trim())\<close>.\<close>

definition parse_lines :: "string list \<Rightarrow> engine \<Rightarrow> engine" where
  "parse_lines ls e = foldl (\<lambda>e line. parseLine line e) e ls"

text \<open>
  \<open>parseCircuitCode(code)\<close> on an engine in any state: the result, a thrown error or
  the pair of lists, and the engine afterwards. Both fields are reset before anything
  else, also before the throw for blank input.
\<close>

definition parseCircuitCode ::
  "string \<Rightarrow> engine \<Rightarrow> (error + component list \<times> connection list) \<times> engine" where
  "parseCircuitCode code e0 =
     (let e1 = e0\<lparr>components := [], connections := []\<rparr> in
      if trim code = [] then (Inl EmptyInput, e1)
      else let e2 = parse_lines (code_lines code) e1 in
        if length (components e2) = 0 then (Inl NoComponents, e2)
        else (Inr (components e2, connections e2), e2))"

text \<open>The line feed that separates the lines of an input.\<close>

abbreviation nl :: string where
  "nl \<equiv> [CHR 0x0A]"

section \<open>The renderer\<close>

text \<open>
  The scene is the list of children of the \<open>svg\<close> element, in document order. The two
  elements of the grid, a wire (\<open>line\<close> of class \<open>circuit-wire\<close> with its attributes
  \<open>x1\<close>, \<open>y1\<close>, \<open>x2\<close>, \<open>y2\<close>), a terminal dot (\<open>circle\<close> of class
  \<open>circuit-terminal\<close> with \<open>cx\<close>, \<open>cy\<close>), and the group \<open>g\<close> that a drawing routine
  builds for a component and appends; the group is identified by the routine and the
  component, its shapes are not spelled out. Attributes hold the value handed to
  \<open>setAttribute\<close>, before it is turned into text.
\<close>

datatype element =
    GridDefs
  | GridRect
  | Wire jsval jsval jsval jsval
  | Dot jsval jsval
  | Group string component

type_synonym svg = "element list"

text \<open>Decimal text of a number, as string concatenation produces it.\<close>

fun show_nat :: "nat \<Rightarrow> string" where
  "show_nat n =
     (if n < 10 then [char_of (48 + n)]
      else show_nat (n div 10) @ [char_of (48 + n mod 10)])"

text \<open>
  \<open>v + k\<close> for a coordinate field \<open>v\<close> and a literal \<open>k\<close> (40 or 20 in the source): a sum
  of numbers, and string concatenation when \<open>v\<close> is an object or a string.
\<close>

definition js_plus :: "jsval \<Rightarrow> int \<Rightarrow> jsval" where
  "js_plus v k =
     (case v of
        Num n \<Rightarrow> number (n + k)
      | Approx n \<Rightarrow> Approx (n + k)
      | PosObj a b \<Rightarrow> Str (''[object Object]'' @ show_nat (nat k))
      | Str s \<Rightarrow> Str (s @ show_nat (nat k)))"

text \<open>\<open>addGrid(svg)\<close>\<close>

definition addGrid :: "svg \<Rightarrow> svg" where
  "addGrid svg = svg @ [GridDefs, GridRect]"

text \<open>\<open>addConnectionDot(svg, x, y)\<close>\<close>

definition addConnectionDot :: "svg \<Rightarrow> jsval \<Rightarrow> jsval \<Rightarrow> svg" where
  "addConnectionDot svg x y = svg @ [Dot x y]"

text \<open>
  \<open>drawConnection(svg, connection, components)\<close>. \<open>Array.prototype.find\<close> is
  \<^const>\<open>List.find\<close>: the first element that satisfies the test, or \<open>undefined\<close>.
\<close>

definition drawConnection :: "svg \<Rightarrow> connection \<Rightarrow> component list \<Rightarrow> error + svg" where
  "drawConnection svg conn comps =
     (case List.find (\<lambda>c. c_name c = conn_from conn) comps of
        None \<Rightarrow> Inr svg
      | Some fromComp \<Rightarrow>
         (case List.find (\<lambda>c. c_name c = conn_to conn) comps of
            None \<Rightarrow> Inr svg
          | Some toComp \<Rightarrow>
              let svg1 = svg @ [Wire (js_plus (c_x fromComp) 40) (js_plus (c_y fromComp) 20)
                                     (c_x toComp) (js_plus (c_y toComp) 20)];
                  svg2 = addConnectionDot svg1 (js_plus (c_x fromComp) 40) (js_plus (c_y fromComp) 20)
              in Inr (addConnectionDot svg2 (c_x toComp) (js_plus (c_y toComp) 20))))"

text \<open>The \<open>switch\<close> of \<open>drawComponent\<close>: the method that each \<open>case\<close> label calls.\<close>

definition dispatch :: "(string \<times> string) list" where
  "dispatch =
     [(''resistor'', ''drawResistor''), (''capacitor'', ''drawCapacitor''),
      (''inductor'', ''drawInductor''), (''led'', ''drawLED''),
      (''battery'', ''drawBattery''), (''ground'', ''drawGround''),
      (''switch'', ''drawSwitch''), (''npn'', ''drawTransistor''),
      (''transistor'', ''drawTransistor''),
      (''arduino_uno'', ''drawArduinoUno''), (''arduino_nano'', ''drawArduinoNano''),
      (''arduino_mega'', ''drawArduinoMega''), (''esp32'', ''drawESP32''),
      (''esp32_cam'', ''drawESP32CAM''), (''esp8266'', ''drawESP8266''),
      (''ultrasonic'', ''drawUltrasonic''), (''dht11'', ''drawDHT11''),
      (''dht22'', ''drawDHT22''), (''pir'', ''drawPIR''),
      (''ir_sensor'', ''drawIRSensor''), (''accelerometer'', ''drawAccelerometer''),
      (''gyro'', ''drawGyro''), (''ldr'', ''drawLDR''),
      (''servo'', ''drawServo''), (''dc_motor'', ''drawDCMotor''),
      (''stepper'', ''drawStepper''), (''relay'', ''drawRelay''),
      (''buzzer'', ''drawBuzzer''), (''rgb_led'', ''drawRGBLED''),
      (''lcd'', ''drawLCD''), (''oled'', ''drawOLED''),
      (''7segment'', ''draw7Segment''), (''potentiometer'', ''drawPotentiometer''),
      (''pushbutton'', ''drawPushButton''),
      (''virtual_wall'', ''drawVirtualWall''), (''virtual_obstacle'', ''drawVirtualObstacle''),
      (''virtual_target'', ''drawVirtualTarget''), (''virtual_light'', ''drawVirtualLight'')]"

definition draw_routine :: "string \<Rightarrow> string" where
  "draw_routine t = (case map_of dispatch t of Some m \<Rightarrow> m | None \<Rightarrow> ''drawGenericComponent'')"

text \<open>
  The drawing methods that class \<open>CircuitEngine\<close> defines. Each of them builds one group,
  fills it from the component, appends it to the scene and returns; none has a
  condition on the component or a \<open>throw\<close>.
\<close>

definition defined_routines :: "string list" where
  "defined_routines =
     [''drawResistor'', ''drawCapacitor'', ''drawInductor'', ''drawLED'', ''drawBattery'',
      ''drawGround'', ''drawSwitch'', ''drawTransistor'', ''drawGenericComponent'',
      ''drawArduinoUno'', ''drawArduinoNano'', ''drawArduinoMega'', ''drawESP32'',
      ''drawESP32CAM'', ''drawESP8266'', ''drawDHT22'', ''drawPIR'', ''drawVirtualWall'',
      ''drawVirtualObstacle'', ''drawVirtualTarget'', ''drawVirtualLight'',
      ''drawUltrasonic'', ''drawDHT11'', ''drawLDR'', ''drawServo'', ''drawDCMotor'',
      ''drawRelay'', ''drawBuzzer'', ''drawLCD'', ''drawPotentiometer'', ''drawPushButton'',
      ''drawRGBLED'']"

text \<open>
  \<open>drawComponent(svg, component)\<close>: the call of a method that the class does not define
  throws a \<open>TypeError\<close> (\<open>this.drawGyro is not a function\<close>).
\<close>

definition drawComponent :: "svg \<Rightarrow> component \<Rightarrow> error + svg" where
  "drawComponent svg c =
     (let m = draw_routine (c_type c) in
      if m \<in> set defined_routines then Inr (svg @ [Group m c])
      else Inl (TypeError (''this.'' @ m @ '' is not a function'')))"

text \<open>
  \<open>xs.forEach(f)\<close> for an \<open>f\<close> that works on the scene and may throw: the scene as it
  is left, and the error that ended the loop, if one did. What was appended before
  the throw stays in the scene.
\<close>

fun forEach :: "('s \<Rightarrow> 'a \<Rightarrow> error + 's) \<Rightarrow> 'a list \<Rightarrow> 's \<Rightarrow> 's \<times> error option" where
  "forEach f [] s = (s, None)"
| "forEach f (x # xs) s = (case f s x of Inl err \<Rightarrow> (s, Some err) | Inr s' \<Rightarrow> forEach f xs s')"

text \<open>
  \<open>generateCircuit(components, connections)\<close>: the scene is emptied, then the grid, the
  connections and the components are drawn, in this order. The result is the scene
  at the end, and the error that was thrown, if one was.
\<close>

definition generateCircuit :: "component list \<Rightarrow> connection list \<Rightarrow> svg \<times> error option" where
  "generateCircuit comps conns =
     (case forEach (\<lambda>svg conn. drawConnection svg conn comps) conns (addGrid []) of
        (svg, Some err) \<Rightarrow> (svg, Some err)
      | (svg, None) \<Rightarrow> forEach drawComponent comps svg)"

section \<open>The validator\<close>

text \<open>
  The messages that \<open>validateCircuitCode\<close> pushes, by template, with the line number
  (\<open>index + 1\<close>) and the quoted name or type:
  \<open>Line n: Duplicate component name '...'\<close>, \<open>Line n: Unknown component type '...'\<close>,
  \<open>Line n: Invalid syntax\<close>, \<open>Line n: Component '...' not found\<close>.
\<close>

datatype diagnostic =
    DuplicateName nat string
  | UnknownType nat string
  | InvalidSyntax nat
  | NotFound nat string

fun diag_line :: "diagnostic \<Rightarrow> nat" where
  "diag_line (DuplicateName n s) = n"
| "diag_line (UnknownType n s) = n"
| "diag_line (InvalidSyntax n) = n"
| "diag_line (NotFound n s) = n"

definition validTypes :: "string list" where
  "validTypes =
     [''resistor'', ''capacitor'', ''inductor'', ''led'', ''battery'', ''ground'', ''switch'',
      ''npn'', ''transistor'',
      ''arduino_uno'', ''arduino_nano'', ''arduino_mega'', ''esp32'', ''esp32_cam'', ''esp8266'',
      ''ultrasonic'', ''dht11'', ''dht22'', ''pir'', ''ir_sensor'', ''accelerometer'', ''gyro'',
      ''ldr'',
      ''servo'', ''dc_motor'', ''stepper'', ''relay'', ''buzzer'', ''rgb_led'',
      ''lcd'', ''oled'', ''7segment'', ''potentiometer'', ''pushbutton'',
      ''virtual_wall'', ''virtual_obstacle'', ''virtual_target'', ''virtual_light'']"

text \<open>
  The three local variables of \<open>validateCircuitCode\<close>: \<open>errors\<close>, the set
  \<open>componentNames\<close>, and \<open>connections\<close> with entries \<open>{from, to, line}\<close>.
\<close>

record vstate =
  errors :: "diagnostic list"
  componentNames :: "string set"
  v_connections :: "(string \<times> string \<times> nat) list"

text \<open>The body of \<open>lines.forEach((line, index) => ...)\<close>.\<close>

definition validate_line :: "nat \<times> string \<Rightarrow> vstate \<Rightarrow> vstate" where
  "validate_line p s =
     (let index = fst p; trimmed = trim (snd p) in
      if trimmed = [] \<or> startsWith trimmed ''//'' then s
      else case componentMatch trimmed of
        Some (name, type, v, xs, ys) \<Rightarrow>
          let s1 = (if name \<in> componentNames s
                    then s\<lparr>errors := errors s @ [DuplicateName (index + 1) name]\<rparr> else s);
              s2 = s1\<lparr>componentNames := insert name (componentNames s1)\<rparr>
          in if toLowerCase type \<notin> set validTypes
             then s2\<lparr>errors := errors s2 @ [UnknownType (index + 1) type]\<rparr> else s2
      | None \<Rightarrow>
         (case connectionMatch trimmed of
            Some (f, t) \<Rightarrow> s\<lparr>v_connections := v_connections s @ [(f, t, index + 1)]\<rparr>
          | None \<Rightarrow> s\<lparr>errors := errors s @ [InvalidSyntax (index + 1)]\<rparr>))"

text \<open>The body of \<open>connections.forEach(conn => ...)\<close>: what one connection adds.\<close>

definition check_connection :: "string set \<Rightarrow> string \<times> string \<times> nat \<Rightarrow> diagnostic list" where
  "check_connection names conn =
     (case conn of (f, t, n) \<Rightarrow>
        (if f \<notin> names then [NotFound n f] else []) @ (if t \<notin> names then [NotFound n t] else []))"

definition validate_lines :: "string \<Rightarrow> vstate" where
  "validate_lines code =
     foldl (\<lambda>s p. validate_line p s)
       \<lparr>errors = [], componentNames = {}, v_connections = []\<rparr>
       (enumerate 0 (split_nl code))"

text \<open>
  \<open>validateCircuitCode(code)\<close>. It is a plain function of the text: it has no access to
  a \<open>CircuitEngine\<close> and returns its list; nothing in it throws.
\<close>

definition validateCircuitCode :: "string \<Rightarrow> diagnostic list" where
  "validateCircuitCode code =
     (let s = validate_lines code in
      errors s @ concat (map (check_connection (componentNames s)) (v_connections s)))"

section \<open>Zoom\<close>

text \<open>
  \<open>this.zoom\<close> is a double, and \<open>this.zoom + 0.1\<close> is the exact sum rounded to the
  nearest double, ties to even. A double is held as the rational number it denotes.
  Every sum and difference formed below lies in the interval from \<open>1/4\<close> to \<open>4\<close>, where
  doubles are the multiples of \<open>ulp\<close>: \<open>2^-54\<close> below \<open>1/2\<close>, \<open>2^-53\<close> below \<open>1\<close>,
  \<open>2^-52\<close> below \<open>2\<close> and \<open>2^-51\<close> from there on. \<open>fl\<close> is the rounding on that
  interval.
\<close>

definition ulp :: "rat \<Rightarrow> rat" where
  "ulp x =
     (if x < 1 / 2 then 1 / 18014398509481984
      else if x < 1 then 1 / 9007199254740992
      else if x < 2 then 1 / 4503599627370496
      else 1 / 2251799813685248)"

definition round_even :: "rat \<Rightarrow> int" where
  "round_even q =
     (let f = \<lfloor>q\<rfloor>; d = q - of_int f in
      if d < 1 / 2 then f
      else if 1 / 2 < d then f + 1
      else if even f then f else f + 1)"

definition fl :: "rat \<Rightarrow> rat" where
  "fl x = ulp x * of_int (round_even (x / ulp x))"

text \<open>The literal \<open>0.1\<close>: the double \<open>3602879701896397 * 2^-55\<close>.\<close>

definition tenth :: rat where
  "tenth = 3602879701896397 / 36028797018963968"

text \<open>
  \<open>zoomIn()\<close> and \<open>zoomOut()\<close>. \<open>applyZoom()\<close>, which both call last, writes
  \<open>scale(zoom)\<close> into the style of the \<open>svg\<close> element and touches no field of the engine.
\<close>

definition zoomIn :: "engine \<Rightarrow> engine" where
  "zoomIn e = e\<lparr>zoom := min (fl (zoom e + tenth)) 3\<rparr>"

definition zoomOut :: "engine \<Rightarrow> engine" where
  "zoomOut e = e\<lparr>zoom := max (fl (zoom e - tenth)) (1 / 2)\<rparr>"

datatype zoom_call = ZoomIn | ZoomOut

fun zoom_step :: "engine \<Rightarrow> zoom_call \<Rightarrow> engine" where
  "zoom_step e ZoomIn = zoomIn e"
| "zoom_step e ZoomOut = zoomOut e"

text \<open>A sequence of calls, first call first.\<close>

definition zoom_calls :: "zoom_call list \<Rightarrow> engine \<Rightarrow> engine" where
  "zoom_calls cs e = foldl zoom_step e cs"

section \<open>PNG export\<close>

text \<open>
  What the user can observe of an export: a message shown by \<open>showMessage(text, type)\<close>
  and a file offered for download under a name.
\<close>

datatype effect = ShowMessage string string | Download string

text \<open>
  The \<open>Image\<close> that \<open>CircuitEngine.exportPNG\<close> creates: the markup put into \<open>src\<close> (as a
  base64 data URL), and its two event handler slots, \<open>None\<close> for the initial \<open>null\<close>.
  A handler is held as the effects of running it.
\<close>

record image =
  markup :: string
  onload :: "effect list option"
  onerror :: "effect list option"

text \<open>
  \<open>CircuitEngine.exportPNG()\<close> on the serialised scene \<open>svgData\<close>: it sets \<open>img.onload\<close>
  (paint the canvas, offer \<open>circuit-diagram.png\<close>), sets \<open>img.src\<close> and returns. It
  assigns nothing to \<open>img.onerror\<close>. \<open>btoa\<close> throws on a code unit above 255 only,
  which a \<open>string\<close> does not have.
\<close>

definition CircuitEngine_exportPNG :: "string \<Rightarrow> error + image" where
  "CircuitEngine_exportPNG svgData =
     Inr \<lparr>markup = svgData, onload = Some [Download ''circuit-diagram.png''], onerror = None\<rparr>"

text \<open>
  The browser, once it has tried to decode \<open>src\<close>: it fires \<open>load\<close> when the markup
  decodes as an image and \<open>error\<close> when it does not, and runs the handler in that slot,
  if there is one.
\<close>

definition fire :: "bool \<Rightarrow> image \<Rightarrow> effect list" where
  "fire decoded img =
     (case (if decoded then onload img else onerror img) of None \<Rightarrow> [] | Some h \<Rightarrow> h)"

definition message :: "error \<Rightarrow> string" where
  "message err =
     (case err of
        EmptyInput \<Rightarrow> ''Please enter circuit code''
      | NoComponents \<Rightarrow> ''No valid components found in code''
      | TypeError m \<Rightarrow> m)"

text \<open>
  \<open>exportPNG()\<close> of the page: \<open>try { circuitEngine.exportPNG(); showMessage(...success) }
  catch (error) { showMessage('Error exporting PNG: ' + error.message, 'error') }\<close>,
  followed by what the image's event does later. \<open>decodes\<close> says which markup the
  browser can decode as an image.
\<close>

definition exportPNG :: "(string \<Rightarrow> bool) \<Rightarrow> string \<Rightarrow> effect list" where
  "exportPNG decodes svgData =
     (case CircuitEngine_exportPNG svgData of
        Inl err \<Rightarrow> [ShowMessage (''Error exporting PNG: '' @ message err) ''error'']
      | Inr img \<Rightarrow>
          ShowMessage ''Circuit exported as PNG successfully'' ''success''
            # fire (decodes (markup img)) img)"

section \<open>Notions used in the statements\<close>

text \<open>
  What a line contributes by each grammar: the name it declares when it matches the
  component expression, and the connection record when it matches \<open>NAME -> NAME\<close>.
\<close>

definition name_of_line :: "string \<Rightarrow> string option" where
  "name_of_line line =
     (case componentMatch line of None \<Rightarrow> None | Some (name, rest) \<Rightarrow> Some name)"

definition connection_of_line :: "string \<Rightarrow> connection option" where
  "connection_of_line line =
     (case connectionMatch line of
        None \<Rightarrow> None
      | Some (f, t) \<Rightarrow> Some \<lparr>conn_from = f, conn_to = t\<rparr>)"

text \<open>
  \<open>parseLine\<close> with explicit connections only, as the specification asks for it: the
  component branch and the connection branch, and no third block.
\<close>

definition parseLine_explicit :: "string \<Rightarrow> engine \<Rightarrow> engine" where
  "parseLine_explicit line e =
     (case componentMatch line of
        Some (name, type, v, xs, ys) \<Rightarrow>
          e\<lparr>components := components e @
              [\<lparr>c_name = name, c_type = toLowerCase type, c_value = value_or_empty v,
                c_x = coordinate e xs, c_y = coordinate e ys\<rparr>]\<rparr>
      | None \<Rightarrow>
         (case connectionMatch line of
            Some (f, t) \<Rightarrow>
              e\<lparr>connections := connections e @ [\<lparr>conn_from = f, conn_to = t\<rparr>]\<rparr>
          | None \<Rightarrow> e))"

text \<open>An engine after earlier calls of \<open>parseCircuitCode\<close> on other texts, first text first.\<close>

definition after_parses :: "string list \<Rightarrow> engine \<Rightarrow> engine" where
  "after_parses texts e = foldl (\<lambda>e text. snd (parseCircuitCode text e)) e texts"


text \<open>
  For the validator: the name that a line of the text declares (it is kept and matches
  the component grammar), and the set of names declared by a list of lines.
\<close>

definition declared_name :: "string \<Rightarrow> string option" where
  "declared_name line =
     (let t = trim line in
      if t = [] \<or> startsWith t ''//'' then None else name_of_line t)"

definition declared :: "string list \<Rightarrow> string set" where
  "declared ls = set (List.map_filter declared_name ls)"

text \<open>
  An offending line, in the words of the specification. Line \<open>i\<close> (counted from 0) of
  the text is neither blank nor a comment and it repeats a name declared on an earlier
  line, or has a type outside the enumeration, or matches neither grammar, or is a
  connection with an endpoint that no line of the text declares.
\<close>

definition offending :: "string \<Rightarrow> nat \<Rightarrow> bool" where
  "offending code i =
     (let ls = split_nl code; t = trim (ls ! i) in
      i < length ls \<and> t \<noteq> [] \<and> \<not> startsWith t ''//'' \<and>
      (case componentMatch t of
         Some (name, type, v, xs, ys) \<Rightarrow>
           name \<in> declared (take i ls) \<or> toLowerCase type \<notin> set validTypes
       | None \<Rightarrow>
          (case connectionMatch t of
             Some (f, t') \<Rightarrow> f \<notin> declared ls \<or> t' \<notin> declared ls
           | None \<Rightarrow> True)))"

text \<open>
  The diagnostics that are due for line \<open>i\<close>: one for a repeated name and one for an
  unknown type, one for each undeclared endpoint of a connection, one for a line of
  neither grammar. They carry the line number \<open>i + 1\<close>.
\<close>

definition expected_diagnostics :: "string \<Rightarrow> nat \<Rightarrow> diagnostic list" where
  "expected_diagnostics code i =
     (let ls = split_nl code; t = trim (ls ! i) in
      if \<not> i < length ls \<or> t = [] \<or> startsWith t ''//'' then []
      else case componentMatch t of
         Some (name, type, v, xs, ys) \<Rightarrow>
           (if name \<in> declared (take i ls) then [DuplicateName (Suc i) name] else []) @
           (if toLowerCase type \<notin> set validTypes then [UnknownType (Suc i) type] else [])
       | None \<Rightarrow>
          (case connectionMatch t of
             Some (f, t') \<Rightarrow>
               (if f \<notin> declared ls then [NotFound (Suc i) f] else []) @
               (if t' \<notin> declared ls then [NotFound (Suc i) t'] else [])
           | None \<Rightarrow> [InvalidSyntax (Suc i)]))"

text \<open>The diagnostics of a list that carry the number of line \<open>i\<close>.\<close>

definition diagnostics_of_line :: "diagnostic list \<Rightarrow> nat \<Rightarrow> diagnostic list" where
  "diagnostics_of_line ds i = filter (\<lambda>d. diag_line d = Suc i) ds"

text \<open>
  What one numbered line adds to the three variables of the validator: the errors it
  pushes when the names seen so far are \<open>names\<close>, and the connection it records.
\<close>

definition line_errors :: "string set \<Rightarrow> nat \<times> string \<Rightarrow> diagnostic list" where
  "line_errors names p =
     (let t = trim (snd p) in
      if t = [] \<or> startsWith t ''//'' then []
      else case componentMatch t of
         Some (name, type, v, xs, ys) \<Rightarrow>
           (if name \<in> names then [DuplicateName (Suc (fst p)) name] else []) @
           (if toLowerCase type \<notin> set validTypes then [UnknownType (Suc (fst p)) type] else [])
       | None \<Rightarrow>
          (case connectionMatch t of
             Some c \<Rightarrow> []
           | None \<Rightarrow> [InvalidSyntax (Suc (fst p))]))"

definition line_conns :: "nat \<times> string \<Rightarrow> (string \<times> string \<times> nat) list" where
  "line_conns p =
     (let t = trim (snd p) in
      if t = [] \<or> startsWith t ''//'' then []
      else case componentMatch t of
         Some m \<Rightarrow> []
       | None \<Rightarrow>
          (case connectionMatch t of
             Some (f, t') \<Rightarrow> [(f, t', Suc (fst p))]
           | None \<Rightarrow> []))"

definition vfold :: "(nat \<times> string) list \<Rightarrow> vstate \<Rightarrow> vstate" where
  "vfold ps s = foldl (\<lambda>s p. validate_line p s) s ps"

text \<open>
  The two regular expressions read as languages, with their captures. \<open>some_of P\<close> is
  a non-empty run of the class \<open>P\<close> (\<open>P+\<close>), \<^const>\<open>list_all\<close> \<open>P\<close> a run that may be
  empty (\<open>P*\<close>). These say which lines match and what is captured, with no reference
  to the order in which a matcher tries the alternatives.
\<close>

definition some_of :: "(char \<Rightarrow> bool) \<Rightarrow> string \<Rightarrow> bool" where
  "some_of P s = (s \<noteq> [] \<and> list_all P s)"

text \<open>\<open>\s+\((\d+),\s*(\d+)\)\<close>\<close>

definition position_shape :: "string \<Rightarrow> string \<Rightarrow> string \<Rightarrow> bool" where
  "position_shape r xs ys =
     (\<exists>ws ws'. r = ws @ ''('' @ xs @ '','' @ ws' @ ys @ '')'' \<and>
        some_of is_space ws \<and> some_of is_digit xs \<and> list_all is_space ws' \<and> some_of is_digit ys)"

text \<open>\<open>\s+([\w.]+)\<close>\<close>

definition value_shape :: "string \<Rightarrow> string \<Rightarrow> bool" where
  "value_shape r v = (\<exists>ws. r = ws @ v \<and> some_of is_space ws \<and> some_of is_value_char v)"

text \<open>\<open>(?:\s+([\w.]+))?(?:\s+\((\d+),\s*(\d+)\))?\<close>, up to the end of the line.\<close>

fun rest_shape :: "string \<Rightarrow> string option \<times> string option \<times> string option \<Rightarrow> bool" where
  "rest_shape r (None, None, None) = (r = [])"
| "rest_shape r (Some v, None, None) = value_shape r v"
| "rest_shape r (None, Some xs, Some ys) = position_shape r xs ys"
| "rest_shape r (Some v, Some xs, Some ys) =
     (\<exists>r1 r2. r = r1 @ r2 \<and> value_shape r1 v \<and> position_shape r2 xs ys)"
| "rest_shape r (v, Some xs, None) = False"
| "rest_shape r (v, None, Some ys) = False"

text \<open>\<open>^(\w+):\s*(\w+)(?:\s+([\w.]+))?(?:\s+\((\d+),\s*(\d+)\))?$\<close>\<close>

definition component_shape ::
  "string \<Rightarrow> string \<Rightarrow> string \<Rightarrow> string option \<times> string option \<times> string option \<Rightarrow> bool" where
  "component_shape line n t caps =
     (\<exists>ws rest. line = n @ '':'' @ ws @ t @ rest \<and>
        some_of is_word n \<and> list_all is_space ws \<and> some_of is_word t \<and> rest_shape rest caps)"

text \<open>\<open>^(\w+)\s*->\s*(\w+)$\<close>\<close>

definition connection_shape :: "string \<Rightarrow> string \<Rightarrow> string \<Rightarrow> bool" where
  "connection_shape line f t =
     (\<exists>ws ws'. line = f @ ws @ ''->'' @ ws' @ t \<and>
        some_of is_word f \<and> list_all is_space ws \<and> list_all is_space ws' \<and> some_of is_word t)"

section \<open>Facts about the parser\<close>

lemma nth_opt_length: "nth_opt xs (length xs) = None"
  by (simp add: nth_opt_def)

lemma parseLine_explicit_eq: "parseLine line e = parseLine_explicit line e"
  by (simp add: parseLine_def parseLine_explicit_def nth_opt_length split: option.splits)

lemma not_space_colon: "\<not> is_space (CHR '':'')"
  by (simp add: is_space_def)

lemma grammars_exclusive:
  assumes "componentMatch line \<noteq> None"
  shows "connectionMatch line = None"
proof -
  from assms obtain r where r: "dropWhile is_word line = CHR '':'' # r"
    by (auto simp: componentMatch_def Let_def split: if_splits list.splits)
  then show ?thesis
    by (simp add: connectionMatch_def Let_def not_space_colon startsWith_def)
qed

lemma parseLine_zoom: "zoom (parseLine line e) = zoom e"
  by (simp add: parseLine_explicit_eq parseLine_explicit_def split: option.splits)

lemma parseLine_connections:
  "connections (parseLine line e) =
     connections e @ (case connection_of_line line of None \<Rightarrow> [] | Some c \<Rightarrow> [c])"
proof (cases "componentMatch line")
  case None
  then show ?thesis
    by (simp add: parseLine_explicit_eq parseLine_explicit_def connection_of_line_def
        split: option.splits)
next
  case (Some m)
  then have "connectionMatch line = None"
    by (simp add: grammars_exclusive)
  with Some show ?thesis
    by (simp add: parseLine_explicit_eq parseLine_explicit_def connection_of_line_def
        split: prod.splits)
qed

lemma parseLine_names:
  "map c_name (components (parseLine line e)) =
     map c_name (components e) @ (case name_of_line line of None \<Rightarrow> [] | Some n \<Rightarrow> [n])"
  by (simp add: parseLine_explicit_eq parseLine_explicit_def name_of_line_def
      split: option.splits)

lemma parse_lines_connections:
  "connections (parse_lines ls e) = connections e @ List.map_filter connection_of_line ls"
  by (induction ls arbitrary: e)
     (auto simp: parse_lines_def parseLine_connections List.map_filter_simps
       split: option.splits)

lemma parse_lines_names:
  "map c_name (components (parse_lines ls e)) =
     map c_name (components e) @ List.map_filter name_of_line ls"
  by (induction ls arbitrary: e)
     (auto simp: parse_lines_def parseLine_names List.map_filter_simps split: option.splits)

lemma parseLine_zoom_update:
  "parseLine line (e\<lparr>zoom := z\<rparr>) = (parseLine line e)\<lparr>zoom := z\<rparr>"
  by (simp add: parseLine_explicit_eq parseLine_explicit_def coordinate_def autoPosition_def
      split: option.splits)

lemma parse_lines_zoom_update:
  "parse_lines ls (e\<lparr>zoom := z\<rparr>) = (parse_lines ls e)\<lparr>zoom := z\<rparr>"
  by (induction ls arbitrary: e) (auto simp: parse_lines_def parseLine_zoom_update)

lemma map_filter_name_empty:
  "(List.map_filter name_of_line ls = []) = list_all (\<lambda>l. componentMatch l = None) ls"
  by (induction ls)
     (auto simp: List.map_filter_simps name_of_line_def split: option.splits)

lemma parsed_components_empty:
  "(components (parse_lines ls (e\<lparr>components := [], connections := []\<rparr>)) = []) =
     list_all (\<lambda>l. componentMatch l = None) ls"
proof -
  have "map c_name (components (parse_lines ls (e\<lparr>components := [], connections := []\<rparr>))) =
      List.map_filter name_of_line ls"
    by (simp add: parse_lines_names)
  then show ?thesis
    by (metis map_filter_name_empty map_is_Nil_conv)
qed

lemma parse_result_reset:
  "fst (parseCircuitCode code e) =
     (if trim code = [] then Inl EmptyInput
      else let e2 = parse_lines (code_lines code) (e\<lparr>components := [], connections := []\<rparr>) in
        if components e2 = [] then Inl NoComponents
        else Inr (components e2, connections e2))"
  by (simp add: parseCircuitCode_def Let_def)

lemma reset_as_zoom_update:
  "e\<lparr>components := [], connections := []\<rparr> =
     (new_engine\<lparr>components := [], connections := []\<rparr>)\<lparr>zoom := zoom e\<rparr>"
  by (simp add: new_engine_def)

lemma parse_result_any_engine:
  "fst (parseCircuitCode code e) = fst (parseCircuitCode code new_engine)"
proof -
  have "parse_lines ls (e\<lparr>components := [], connections := []\<rparr>) =
      (parse_lines ls (new_engine\<lparr>components := [], connections := []\<rparr>))\<lparr>zoom := zoom e\<rparr>"
    for ls
    by (subst reset_as_zoom_update) (rule parse_lines_zoom_update)
  then show ?thesis
    by (simp add: parse_result_reset Let_def)
qed


section \<open>The matchers compute the regular expressions\<close>

lemma class_facts:
  "is_word c \<Longrightarrow> \<not> is_space c"
  "is_digit c \<Longrightarrow> \<not> is_space c"
  "is_value_char c \<Longrightarrow> \<not> is_space c"
  "is_word c \<Longrightarrow> is_value_char c"
  "\<not> is_word (CHR '':'')" "\<not> is_space (CHR ''('')" "\<not> is_value_char (CHR ''('')"
  "\<not> is_digit (CHR '','')" "\<not> is_digit (CHR '')'')" "\<not> is_word (CHR ''-'')"
  "\<not> is_space (CHR ''-'')"
  by (auto simp: is_word_def is_space_def is_digit_def is_value_char_def Let_def)

lemma run_then:
  assumes "list_all P a" and "r = [] \<or> \<not> P (hd r)"
  shows "takeWhile P (a @ r) = a" and "dropWhile P (a @ r) = r"
proof -
  from assms(2) have r: "takeWhile P r = [] \<and> dropWhile P r = r"
    by (cases r) auto
  from assms(1) have a: "\<forall>x \<in> set a. P x"
    by (simp add: list_all_iff)
  from a r show "takeWhile P (a @ r) = a"
    by (simp add: takeWhile_append2)
  from a r show "dropWhile P (a @ r) = r"
    by (simp add: dropWhile_append2)
qed

lemma run_all: "list_all P (takeWhile P s)"
  by (simp add: list_all_iff) (meson set_takeWhileD)

lemma run_stop: "dropWhile P s = c # r \<Longrightarrow> \<not> P c"
  by (metis hd_dropWhile list.distinct(1) list.sel(1))

lemma run_split: "dropWhile P s = r \<Longrightarrow> s = takeWhile P s @ r"
  by (metis takeWhile_dropWhile_id)

lemma match_position_sound:
  assumes "match_position r = Some (xs, ys)"
  shows "position_shape r xs ys"
proof -
  from assms obtain r2 r4 where ws: "takeWhile is_space r \<noteq> []"
    and d1: "dropWhile is_space r = CHR ''('' # r2"
    and xs: "xs = takeWhile is_digit r2" "xs \<noteq> []"
    and d2: "dropWhile is_digit r2 = CHR '','' # r4"
    and ys: "ys = takeWhile is_digit (dropWhile is_space r4)" "ys \<noteq> []"
    and d3: "dropWhile is_digit (dropWhile is_space r4) = '')''"
    by (auto simp: match_position_def Let_def split: if_splits list.splits)
  have "r = takeWhile is_space r @ CHR ''('' # r2"
    using d1 by (rule run_split)
  moreover have "r2 = xs @ CHR '','' # r4"
    unfolding xs(1) using d2 by (rule run_split)
  moreover have "r4 = takeWhile is_space r4 @ dropWhile is_space r4"
    by simp
  moreover have "dropWhile is_space r4 = ys @ '')''"
    unfolding ys(1) using d3 by (rule run_split)
  ultimately have "r = takeWhile is_space r @ ''('' @ xs @ '','' @ takeWhile is_space r4 @ ys @ '')''"
    by simp
  moreover have "some_of is_space (takeWhile is_space r)" "some_of is_digit xs"
    "list_all is_space (takeWhile is_space r4)" "some_of is_digit ys"
    using ws xs ys by (simp_all add: some_of_def run_all)
  ultimately show ?thesis
    unfolding position_shape_def by blast
qed

lemma match_position_complete:
  assumes "position_shape r xs ys"
  shows "match_position r = Some (xs, ys)"
proof -
  from assms obtain ws ws' where r: "r = ws @ ''('' @ xs @ '','' @ ws' @ ys @ '')''"
    and ws: "ws \<noteq> []" "list_all is_space ws" and xs: "xs \<noteq> []" "list_all is_digit xs"
    and ws': "list_all is_space ws'" and ys: "ys \<noteq> []" "list_all is_digit ys"
    by (auto simp: position_shape_def some_of_def)
  have hd_ys: "\<not> is_space (hd (ys @ '')''))"
    using ys by (cases ys) (simp_all add: class_facts)
  have r': "r = ws @ CHR ''('' # xs @ CHR '','' # ws' @ ys @ '')''"
    using r by simp
  have t1: "takeWhile is_space r = ws"
    and d1: "dropWhile is_space r = CHR ''('' # xs @ CHR '','' # ws' @ ys @ '')''"
    unfolding r' using ws(2) by (simp_all add: run_then class_facts)
  have t2: "takeWhile is_digit (xs @ CHR '','' # ws' @ ys @ '')'') = xs"
    and d2: "dropWhile is_digit (xs @ CHR '','' # ws' @ ys @ '')'') = CHR '','' # ws' @ ys @ '')''"
    using xs(2) by (simp_all add: run_then class_facts)
  have d3: "dropWhile is_space (ws' @ ys @ '')'') = ys @ '')''"
    using ws' hd_ys by (simp add: run_then)
  have t4: "takeWhile is_digit (ys @ '')'') = ys" and d4: "dropWhile is_digit (ys @ '')'') = '')''"
    using ys(2) by (simp_all add: run_then class_facts)
  show ?thesis
    using ws(1) xs(1) ys(1)
    by (simp add: match_position_def t1 d1 t2 d2 d3 t4 d4 Let_def)
qed

lemma match_position_iff: "(match_position r = Some (xs, ys)) = position_shape r xs ys"
  using match_position_sound match_position_complete by blast

lemma position_shape_starts:
  assumes "position_shape r xs ys"
  shows "r \<noteq> []" and "is_space (hd r)" and "takeWhile is_space r \<noteq> []"
    and "takeWhile is_value_char (dropWhile is_space r) = []"
proof -
  from assms obtain ws r' where r: "r = ws @ CHR ''('' # r'" and ws: "ws \<noteq> []" "list_all is_space ws"
    by (auto simp: position_shape_def some_of_def)
  from r ws show "r \<noteq> []" and "is_space (hd r)"
    by (cases ws; simp)+
  have "takeWhile is_space r = ws" and d: "dropWhile is_space r = CHR ''('' # r'"
    unfolding r using ws(2) by (simp_all add: run_then class_facts)
  with ws show "takeWhile is_space r \<noteq> []" by simp
  show "takeWhile is_value_char (dropWhile is_space r) = []"
    unfolding d by (simp add: class_facts)
qed

lemma match_rest_sound:
  assumes "match_rest r = Some caps"
  shows "rest_shape r caps"
proof (cases "r = []")
  case True
  with assms have "caps = (None, None, None)" by (simp add: match_rest_def)
  with True show ?thesis by simp
next
  case False
  let ?ws = "takeWhile is_space r"
  let ?r5 = "dropWhile is_space r"
  let ?v = "takeWhile is_value_char ?r5"
  let ?r6 = "dropWhile is_value_char ?r5"
  from assms False have ws: "?ws \<noteq> []"
    by (auto simp: match_rest_def split: if_splits)
  have split: "r = ?ws @ ?v @ ?r6"
    by simp
  have runs: "some_of is_space ?ws" "list_all is_value_char ?v"
    using ws by (simp_all add: some_of_def run_all)
  show ?thesis
  proof (cases "?v = []")
    case True
    with assms False ws obtain xs ys where "match_position r = Some (xs, ys)"
      and "caps = (None, Some xs, Some ys)"
      by (auto simp: match_rest_def Let_def split: option.splits)
    then show ?thesis by (simp add: match_position_sound)
  next
    case v: False
    show ?thesis
    proof (cases "?r6 = []")
      case True
      with assms False ws v have "caps = (Some ?v, None, None)"
        by (simp add: match_rest_def Let_def)
      moreover have "r = ?ws @ ?v" by (metis True append_Nil2 split)
      ultimately show ?thesis
        using runs v by (auto simp: value_shape_def some_of_def)
    next
      case r6: False
      with assms False ws v obtain xs ys where p: "match_position ?r6 = Some (xs, ys)"
        and c: "caps = (Some ?v, Some xs, Some ys)"
        by (auto simp: match_rest_def Let_def split: option.splits if_splits)
      have "value_shape (?ws @ ?v) ?v"
        using runs v by (auto simp: value_shape_def some_of_def)
      moreover have "position_shape ?r6 xs ys"
        using p by (rule match_position_sound)
      moreover have "r = (?ws @ ?v) @ ?r6"
        by simp
      ultimately show ?thesis
        unfolding c rest_shape.simps by blast
    qed
  qed
qed

lemma value_shape_runs:
  assumes "value_shape r1 v" and "r2 = [] \<or> is_space (hd r2)"
  shows "r1 @ r2 \<noteq> []" and "takeWhile is_space (r1 @ r2) \<noteq> []"
    and "takeWhile is_value_char (dropWhile is_space (r1 @ r2)) = v"
    and "dropWhile is_value_char (dropWhile is_space (r1 @ r2)) = r2" and "v \<noteq> []"
proof -
  from assms(1) obtain ws where r1: "r1 = ws @ v" and ws: "ws \<noteq> []" "list_all is_space ws"
    and v: "v \<noteq> []" "list_all is_value_char v"
    by (auto simp: value_shape_def some_of_def)
  show "v \<noteq> []" by (rule v(1))
  from r1 ws show "r1 @ r2 \<noteq> []" by simp
  have hd_v: "\<not> is_space (hd (v @ r2))"
    using v by (cases v) (simp_all add: class_facts list_all_iff)
  have t: "takeWhile is_space (r1 @ r2) = ws" and d: "dropWhile is_space (r1 @ r2) = v @ r2"
    unfolding r1 using ws(2) hd_v run_then [of is_space ws "v @ r2"] by simp_all
  from t ws show "takeWhile is_space (r1 @ r2) \<noteq> []" by simp
  have stop: "r2 = [] \<or> \<not> is_value_char (hd r2)"
    using assms(2) class_facts(3) by blast
  show "takeWhile is_value_char (dropWhile is_space (r1 @ r2)) = v"
    and "dropWhile is_value_char (dropWhile is_space (r1 @ r2)) = r2"
    unfolding d using v(2) stop by (simp_all add: run_then)
qed

lemma match_rest_complete:
  assumes "rest_shape r caps"
  shows "match_rest r = Some caps"
  using assms
proof (induction r caps rule: rest_shape.induct)
  case (1 r)
  then show ?case by (simp add: match_rest_def)
next
  case (2 r v)
  then have "value_shape r v" by simp
  from value_shape_runs [OF this, of "[]"] show ?case
    by (simp add: match_rest_def Let_def)
next
  case (3 r xs ys)
  then have p: "position_shape r xs ys" by simp
  from position_shape_starts [OF p] match_position_complete [OF p] show ?case
    by (simp add: match_rest_def Let_def)
next
  case (4 r v xs ys)
  then obtain r1 r2 where r: "r = r1 @ r2" and v: "value_shape r1 v"
    and p: "position_shape r2 xs ys"
    by auto
  from position_shape_starts [OF p] have "r2 = [] \<or> is_space (hd r2)" and r2: "r2 \<noteq> []"
    by simp_all
  from value_shape_runs [OF v this(1)] r2 match_position_complete [OF p] show ?case
    unfolding r by (simp add: match_rest_def Let_def)
next
  case (5 r v xs)
  then show ?case by simp
next
  case (6 r v ys)
  then show ?case by simp
qed

lemma match_rest_iff: "(match_rest r = Some caps) = rest_shape r caps"
  using match_rest_sound match_rest_complete by blast

lemma rest_shape_starts: "rest_shape r caps \<Longrightarrow> r = [] \<or> is_space (hd r)"
proof (induction r caps rule: rest_shape.induct)
  case (2 r v)
  then have "value_shape r v" by simp
  from value_shape_runs(2) [OF this, of "[]"] show ?case
    by (cases r) (auto split: if_splits)
next
  case (3 r xs ys)
  then show ?case by (simp add: position_shape_starts)
next
  case (4 r v xs ys)
  then obtain r1 r2 where r: "r = r1 @ r2" and v: "value_shape r1 v"
    by auto
  from value_shape_runs(2) [OF v, of "[]"] show ?case
    unfolding r by (cases r1) (auto split: if_splits)
qed simp_all

lemma componentMatch_sound:
  assumes "componentMatch line = Some (n, t, caps)"
  shows "component_shape line n t caps"
proof -
  from assms obtain r2 where n: "n = takeWhile is_word line" "n \<noteq> []"
    and d1: "dropWhile is_word line = CHR '':'' # r2"
    and t: "t = takeWhile is_word (dropWhile is_space r2)" "t \<noteq> []"
    and m: "match_rest (dropWhile is_word (dropWhile is_space r2)) = Some caps"
    by (auto simp: componentMatch_def Let_def split: if_splits list.splits option.splits)
  let ?ws = "takeWhile is_space r2"
  let ?rest = "dropWhile is_word (dropWhile is_space r2)"
  have "line = n @ CHR '':'' # r2"
    unfolding n(1) using d1 by (rule run_split)
  moreover have "r2 = ?ws @ t @ ?rest"
    unfolding t(1) by simp
  ultimately have "line = n @ '':'' @ ?ws @ t @ ?rest"
    by simp
  moreover have "some_of is_word n" "list_all is_space ?ws" "some_of is_word t"
    using n t by (simp_all add: some_of_def run_all)
  moreover have "rest_shape ?rest caps"
    using m by (rule match_rest_sound)
  ultimately show ?thesis
    unfolding component_shape_def by blast
qed

lemma word_run_then_space:
  assumes "t \<noteq> []" "list_all is_word t" "rest = [] \<or> is_space (hd rest)" "list_all is_space ws"
  shows "dropWhile is_space (ws @ t @ rest) = t @ rest" and "takeWhile is_space (ws @ t @ rest) = ws"
    and "takeWhile is_word (t @ rest) = t" and "dropWhile is_word (t @ rest) = rest"
proof -
  have hd_t: "\<not> is_space (hd (t @ rest))"
    using assms(1,2) by (cases t) (simp_all add: class_facts)
  show "dropWhile is_space (ws @ t @ rest) = t @ rest"
    and "takeWhile is_space (ws @ t @ rest) = ws"
    using assms(4) hd_t by (simp_all add: run_then)
  have stop: "rest = [] \<or> \<not> is_word (hd rest)"
    using assms(3) class_facts(1) by blast
  show "takeWhile is_word (t @ rest) = t" and "dropWhile is_word (t @ rest) = rest"
    using assms(2) stop by (simp_all add: run_then)
qed

lemma componentMatch_complete:
  assumes "component_shape line n t caps"
  shows "componentMatch line = Some (n, t, caps)"
proof -
  from assms obtain ws rest where line: "line = n @ CHR '':'' # ws @ t @ rest"
    and n: "n \<noteq> []" "list_all is_word n" and ws: "list_all is_space ws"
    and t: "t \<noteq> []" "list_all is_word t" and rest: "rest_shape rest caps"
    by (auto simp: component_shape_def some_of_def)
  have t1: "takeWhile is_word line = n" and d1: "dropWhile is_word line = CHR '':'' # ws @ t @ rest"
    unfolding line using n(2) by (simp_all add: run_then class_facts)
  from rest have "rest = [] \<or> is_space (hd rest)"
    by (rule rest_shape_starts)
  from word_run_then_space [OF t this ws] match_rest_complete [OF rest] n(1) t(1) show ?thesis
    by (simp add: componentMatch_def t1 d1 Let_def class_facts)
qed

text \<open>
  A line matches the component expression with given captures exactly when
  \<open>componentMatch\<close> returns them, and likewise for the connection expression: each
  expression has at most one way to match a line, which is the one that the matcher
  finds.
\<close>

lemma componentMatch_iff:
  "(componentMatch line = Some (n, t, v, xs, ys)) = component_shape line n t (v, xs, ys)"
  using componentMatch_sound componentMatch_complete by blast


lemma run_whole: "dropWhile P s = [] \<Longrightarrow> takeWhile P s = s"
  by (simp add: dropWhile_eq_Nil_conv takeWhile_eq_all_conv)

lemma if_chain_Some:
  assumes "(if a then None else if \<not> b then None else if c \<or> \<not> d then None else Some (v1, v2))
      = Some (w1, w2)"
  shows "\<not> a" and "b" and "\<not> c" and "d" and "w1 = v1" and "w2 = v2"
  using assms by (simp_all split: if_splits)

lemma connectionMatch_Some:
  assumes "connectionMatch line = Some (f, t)"
  shows "f = takeWhile is_word line" and "takeWhile is_word line \<noteq> []"
    and "startsWith (dropWhile is_space (dropWhile is_word line)) ''->''"
    and "t = takeWhile is_word
           (dropWhile is_space (drop 2 (dropWhile is_space (dropWhile is_word line))))"
    and "takeWhile is_word
           (dropWhile is_space (drop 2 (dropWhile is_space (dropWhile is_word line)))) \<noteq> []"
    and "dropWhile is_word
           (dropWhile is_space (drop 2 (dropWhile is_space (dropWhile is_word line)))) = []"
proof -
  let ?f = "takeWhile is_word line"
  let ?r2 = "dropWhile is_space (dropWhile is_word line)"
  let ?r3 = "dropWhile is_space (drop 2 ?r2)"
  have m: "(if ?f = [] then None
       else if \<not> startsWith ?r2 ''->'' then None
       else if takeWhile is_word ?r3 = [] \<or> \<not> dropWhile is_word ?r3 = [] then None
       else Some (?f, takeWhile is_word ?r3)) = Some (f, t)"
    using assms unfolding connectionMatch_def Let_def .
  show "f = ?f" by (rule if_chain_Some(5) [OF m])
  show "?f \<noteq> []" by (rule if_chain_Some(1) [OF m])
  show "startsWith ?r2 ''->''" by (rule if_chain_Some(2) [OF m])
  show "t = takeWhile is_word ?r3" by (rule if_chain_Some(6) [OF m])
  show "takeWhile is_word ?r3 \<noteq> []" by (rule if_chain_Some(3) [OF m])
  show "dropWhile is_word ?r3 = []" by (rule if_chain_Some(4) [OF m])
qed

lemma connectionMatch_sound:
  assumes "connectionMatch line = Some (f, t)"
  shows "connection_shape line f t"
proof -
  define r1 where "r1 = dropWhile is_word line"
  define r2 where "r2 = dropWhile is_space r1"
  define d where "d = drop 2 r2"
  define r3 where "r3 = dropWhile is_space d"
  note facts = connectionMatch_Some [OF assms, folded r1_def, folded r2_def, folded d_def,
      folded r3_def]
  have f: "f = takeWhile is_word line" "f \<noteq> []"
    using facts(1,2) by simp_all
  have t: "t = takeWhile is_word r3" "t \<noteq> []"
    using facts(4,5) by simp_all
  have e: "dropWhile is_word r3 = []"
    by (rule facts(6))
  have arrow: "take 2 r2 = ''->''"
    using facts(3) by (simp add: startsWith_def numeral_2_eq_2)
  have "r3 = t"
    unfolding t(1) using e by (simp add: run_whole)
  then have e4: "d = takeWhile is_space d @ t"
    unfolding r3_def by (rule run_split)
  have "take 2 r2 @ d = r2"
    unfolding d_def by (rule append_take_drop_id)
  then have e3: "r2 = ''->'' @ d"
    unfolding arrow by simp
  have e2: "r1 = takeWhile is_space r1 @ r2"
    unfolding r2_def by simp
  have e1: "line = f @ r1"
    unfolding f(1) r1_def by simp
  note e1
  also note e2
  also note e3
  also note e4
  finally have "line = f @ takeWhile is_space r1 @ ''->'' @ takeWhile is_space d @ t" .
  moreover have "some_of is_word f" "list_all is_space (takeWhile is_space r1)"
    "list_all is_space (takeWhile is_space d)" "some_of is_word t"
    using f t by (simp_all add: some_of_def run_all)
  ultimately show ?thesis
    unfolding connection_shape_def by blast
qed

lemma connectionMatch_complete:
  assumes "connection_shape line f t"
  shows "connectionMatch line = Some (f, t)"
proof -
  from assms obtain ws ws' where line: "line = f @ ws @ CHR ''-'' # CHR ''>'' # ws' @ t"
    and f: "f \<noteq> []" "list_all is_word f" and ws: "list_all is_space ws" "list_all is_space ws'"
    and t: "t \<noteq> []" "list_all is_word t"
    by (auto simp: connection_shape_def some_of_def)
  have stop: "\<not> is_word (hd (ws @ CHR ''-'' # CHR ''>'' # ws' @ t))"
  proof (cases ws)
    case Nil
    then show ?thesis by (simp add: class_facts)
  next
    case (Cons a l)
    with ws(1) have "is_space a" by simp
    then have "\<not> is_word a" using class_facts(1) by blast
    with Cons show ?thesis by simp
  qed
  have t1: "takeWhile is_word line = f"
    and d1: "dropWhile is_word line = ws @ CHR ''-'' # CHR ''>'' # ws' @ t"
    unfolding line using f(2) stop by (simp_all add: run_then)
  have d2: "dropWhile is_space (ws @ CHR ''-'' # CHR ''>'' # ws' @ t) = CHR ''-'' # CHR ''>'' # ws' @ t"
    using ws(1) by (simp add: run_then class_facts)
  have "dropWhile is_space (ws' @ t @ []) = t @ []" "takeWhile is_word (t @ []) = t"
    "dropWhile is_word (t @ []) = []"
    using word_run_then_space [OF t _ ws(2), of "[]"] by simp_all
  then have d3: "dropWhile is_space (ws' @ t) = t" "takeWhile is_word t = t" "dropWhile is_word t = []"
    by simp_all
  show ?thesis
    using f(1) t(1) t(2)
    by (simp add: connectionMatch_def t1 d1 d2 d3 Let_def startsWith_def list_all_iff)
qed

lemma connectionMatch_iff: "(connectionMatch line = Some (f, t)) = connection_shape line f t"
  using connectionMatch_sound connectionMatch_complete by blast

section \<open>The example of the specification\<close>

text \<open>
  Claim C1. On the input \<open>R1: resistor 330 (250,100)\<close>, \<open>LED1: led red\<close>, \<open>R1 -> LED1\<close>
  (three lines) \<open>parseCircuitCode\<close> returns exactly two component records and exactly
  one connection record, from \<open>R1\<close> to \<open>LED1\<close>. \<open>R1\<close> has type \<open>resistor\<close>, value
  \<open>330\<close> and the numbers 250 and 100 as coordinates. \<open>LED1\<close> has type \<open>led\<close> and value
  \<open>red\<close>; its \<open>x\<close> field and its \<open>y\<close> field both hold the whole object
  \<open>{x: 200, y: 100}\<close> that \<open>autoPosition\<close> returns at index 1, and neither holds a
  number.
\<close>

theorem parse_example_auto_position:
  "fst (parseCircuitCode
         (''R1: resistor 330 (250,100)'' @ nl @ ''LED1: led red'' @ nl @ ''R1 -> LED1'')
         new_engine) =
     Inr ([\<lparr>c_name = ''R1'', c_type = ''resistor'', c_value = ''330'',
              c_x = Num 250, c_y = Num 100\<rparr>,
           \<lparr>c_name = ''LED1'', c_type = ''led'', c_value = ''red'',
              c_x = PosObj 200 100, c_y = PosObj 200 100\<rparr>],
          [\<lparr>conn_from = ''R1'', conn_to = ''LED1''\<rparr>])"
  by code_simp

section \<open>The parse contract\<close>

text \<open>
  Claim C2. \<open>parseCircuitCode\<close> throws the empty-input error exactly when the trimmed
  text is empty; it throws the no-components error exactly when the text is not blank
  and no line that is kept (not blank, not a comment) matches the component grammar,
  so that zero component records were built; in every other case it returns the two
  lists, one component record per component line and one connection record per
  connection line, in the order of the lines.
\<close>

theorem parseCircuitCode_contract:
  "((fst (parseCircuitCode code e) = Inl EmptyInput) = (trim code = [])) \<and>
   ((fst (parseCircuitCode code e) = Inl NoComponents) =
      (trim code \<noteq> [] \<and> list_all (\<lambda>l. componentMatch l = None) (code_lines code))) \<and>
   (trim code \<noteq> [] \<and> \<not> list_all (\<lambda>l. componentMatch l = None) (code_lines code) \<longrightarrow>
      (\<exists>comps conns. fst (parseCircuitCode code e) = Inr (comps, conns) \<and> comps \<noteq> [] \<and>
         map c_name comps = List.map_filter name_of_line (code_lines code) \<and>
         conns = List.map_filter connection_of_line (code_lines code)))"
proof -
  let ?e2 = "parse_lines (code_lines code) (e\<lparr>components := [], connections := []\<rparr>)"
  have empty: "(components ?e2 = []) = list_all (\<lambda>l. componentMatch l = None) (code_lines code)"
    by (rule parsed_components_empty)
  have names: "map c_name (components ?e2) = List.map_filter name_of_line (code_lines code)"
    by (simp add: parse_lines_names)
  have conns: "connections ?e2 = List.map_filter connection_of_line (code_lines code)"
    by (simp add: parse_lines_connections)
  show ?thesis
  proof (cases "trim code = []")
    case True
    then show ?thesis by (simp add: parse_result_reset)
  next
    case False
    show ?thesis
    proof (cases "components ?e2 = []")
      case True
      with False empty show ?thesis by (simp add: parse_result_reset Let_def)
    next
      case nonempty: False
      with False empty names conns show ?thesis by (simp add: parse_result_reset Let_def)
    qed
  qed
qed

text \<open>
  The contract on the three inputs that the specification names: a blank text, a text
  that is only a comment, and a text with a component.
\<close>

theorem parseCircuitCode_contract_witness:
  "fst (parseCircuitCode (''   '' @ nl @ ''  '' @ nl) new_engine) = Inl EmptyInput \<and>
   fst (parseCircuitCode (''// just a comment'' @ nl) new_engine) = Inl NoComponents \<and>
   (\<exists>comps conns. fst (parseCircuitCode (''R1: resistor 330'' @ nl @ ''R1 -> X'') new_engine)
       = Inr (comps, conns) \<and> comps \<noteq> [] \<and> map c_name comps = [''R1''] \<and>
         conns = [\<lparr>conn_from = ''R1'', conn_to = ''X''\<rparr>])"
proof -
  have blank: "trim (''   '' @ nl @ ''  '' @ nl) = []"
    by code_simp
  have comment: "trim (''// just a comment'' @ nl) \<noteq> [] \<and>
      list_all (\<lambda>l. componentMatch l = None) (code_lines (''// just a comment'' @ nl))"
    by code_simp
  have comp: "trim (''R1: resistor 330'' @ nl @ ''R1 -> X'') \<noteq> [] \<and>
      \<not> list_all (\<lambda>l. componentMatch l = None) (code_lines (''R1: resistor 330'' @ nl @ ''R1 -> X''))"
    by code_simp
  have names: "List.map_filter name_of_line (code_lines (''R1: resistor 330'' @ nl @ ''R1 -> X''))
      = [''R1'']"
    by code_simp
  have conns: "List.map_filter connection_of_line (code_lines (''R1: resistor 330'' @ nl @ ''R1 -> X''))
      = [\<lparr>conn_from = ''R1'', conn_to = ''X''\<rparr>]"
    by code_simp
  from blank parseCircuitCode_contract [of "''   '' @ nl @ ''  '' @ nl" new_engine]
  have a: "fst (parseCircuitCode (''   '' @ nl @ ''  '' @ nl) new_engine) = Inl EmptyInput"
    by blast
  from comment parseCircuitCode_contract [of "''// just a comment'' @ nl" new_engine]
  have b: "fst (parseCircuitCode (''// just a comment'' @ nl) new_engine) = Inl NoComponents"
    by blast
  from comp parseCircuitCode_contract [of "''R1: resistor 330'' @ nl @ ''R1 -> X''" new_engine]
  have c: "\<exists>comps conns. fst (parseCircuitCode (''R1: resistor 330'' @ nl @ ''R1 -> X'') new_engine)
       = Inr (comps, conns) \<and> comps \<noteq> [] \<and> map c_name comps = [''R1''] \<and>
         conns = [\<lparr>conn_from = ''R1'', conn_to = ''X''\<rparr>]"
    unfolding names conns by blast
  from a b c show ?thesis by blast
qed


section \<open>Determinism and independence of earlier parses\<close>

lemma after_parses_snoc:
  "after_parses (texts @ [text]) e = snd (parseCircuitCode text (after_parses texts e))"
  by (simp add: after_parses_def)

text \<open>
  Claim C3. The result of \<open>parseCircuitCode\<close> on a text is the same on every engine,
  whatever its components, connections and zoom are: two calls on the same text
  return the same component list, with the same coordinates, and the same connection
  list, or throw the same error. In particular the result on an engine that has
  parsed any other texts before is the result on a new engine, so no record of an
  earlier parse is in it.
\<close>

theorem parse_deterministic_history_independent:
  "fst (parseCircuitCode code e) = fst (parseCircuitCode code e') \<and>
   fst (parseCircuitCode code (after_parses texts e)) = fst (parseCircuitCode code new_engine) \<and>
   fst (parseCircuitCode code (snd (parseCircuitCode code e))) = fst (parseCircuitCode code e)"
  using parse_result_any_engine [of code e] parse_result_any_engine [of code e']
    parse_result_any_engine [of code "after_parses texts e"]
    parse_result_any_engine [of code "snd (parseCircuitCode code e)"]
  by simp

text \<open>
  An engine that has parsed two other texts, the second one twice, gives on the
  example of the specification what a new engine gives.
\<close>

theorem parse_deterministic_history_independent_witness:
  "fst (parseCircuitCode (''R1: resistor 330 (250,100)'' @ nl @ ''LED1: led red'' @ nl @ ''R1 -> LED1'')
         (after_parses [''V1: battery 9V'' @ nl @ ''V1 -> GND'', ''C1: capacitor'',
            ''C1: capacitor''] new_engine)) =
     Inr ([\<lparr>c_name = ''R1'', c_type = ''resistor'', c_value = ''330'',
              c_x = Num 250, c_y = Num 100\<rparr>,
           \<lparr>c_name = ''LED1'', c_type = ''led'', c_value = ''red'',
              c_x = PosObj 200 100, c_y = PosObj 200 100\<rparr>],
          [\<lparr>conn_from = ''R1'', conn_to = ''LED1''\<rparr>])"
proof -
  have fresh: "fst (parseCircuitCode
         (''R1: resistor 330 (250,100)'' @ nl @ ''LED1: led red'' @ nl @ ''R1 -> LED1'')
         new_engine) =
     Inr ([\<lparr>c_name = ''R1'', c_type = ''resistor'', c_value = ''330'',
              c_x = Num 250, c_y = Num 100\<rparr>,
           \<lparr>c_name = ''LED1'', c_type = ''led'', c_value = ''red'',
              c_x = PosObj 200 100, c_y = PosObj 200 100\<rparr>],
          [\<lparr>conn_from = ''R1'', conn_to = ''LED1''\<rparr>])"
    by code_simp
  from parse_deterministic_history_independent
    [of "''R1: resistor 330 (250,100)'' @ nl @ ''LED1: led red'' @ nl @ ''R1 -> LED1''"
      new_engine new_engine
      "[''V1: battery 9V'' @ nl @ ''V1 -> GND'', ''C1: capacitor'', ''C1: capacitor'']"]
  show ?thesis
    unfolding fresh by blast
qed

section \<open>Connections whose endpoints are not declared\<close>

lemma find_None_name:
  "(List.find (\<lambda>c. c_name c = n) comps = None) = (n \<notin> c_name ` set comps)"
  by (auto simp: find_None_iff)

lemma drawConnection_skip:
  assumes "conn_from conn \<notin> c_name ` set comps \<or> conn_to conn \<notin> c_name ` set comps"
  shows "drawConnection svg conn comps = Inr svg"
  using assms
  by (auto simp: drawConnection_def find_None_name [symmetric] split: option.splits)

lemma drawConnection_draw:
  assumes "List.find (\<lambda>c. c_name c = conn_from conn) comps = Some a"
    and "List.find (\<lambda>c. c_name c = conn_to conn) comps = Some b"
  shows "drawConnection svg conn comps =
     Inr (svg @ [Wire (js_plus (c_x a) 40) (js_plus (c_y a) 20) (c_x b) (js_plus (c_y b) 20),
                 Dot (js_plus (c_x a) 40) (js_plus (c_y a) 20),
                 Dot (c_x b) (js_plus (c_y b) 20)])"
  using assms by (simp add: drawConnection_def addConnectionDot_def Let_def)

text \<open>
  Claim C4. A connection line is parsed into the connection list whether or not its
  two names are names of components: when \<open>parseCircuitCode\<close> returns, the record of
  every connection line of the text is in the returned list. For a connection whose
  \<open>from\<close> or \<open>to\<close> is not the name of a component of the list given to the renderer,
  \<open>drawConnection\<close> returns the scene as it was, with no wire and no dot added, and
  throws nothing. When both names are names of components it appends one wire and
  two dots, and throws nothing.
\<close>

theorem dangling_connection_parsed_not_drawn:
  "(fst (parseCircuitCode code e) = Inr (comps, conns) \<and> line \<in> set (code_lines code) \<and>
      connectionMatch line = Some (f, t) \<longrightarrow> \<lparr>conn_from = f, conn_to = t\<rparr> \<in> set conns) \<and>
   (conn_from conn \<notin> c_name ` set cs \<or> conn_to conn \<notin> c_name ` set cs \<longrightarrow>
      drawConnection svg conn cs = Inr svg) \<and>
   (conn_from conn \<in> c_name ` set cs \<and> conn_to conn \<in> c_name ` set cs \<longrightarrow>
      (\<exists>a b. a \<in> set cs \<and> b \<in> set cs \<and> c_name a = conn_from conn \<and> c_name b = conn_to conn \<and>
         drawConnection svg conn cs =
           Inr (svg @ [Wire (js_plus (c_x a) 40) (js_plus (c_y a) 20) (c_x b) (js_plus (c_y b) 20),
                       Dot (js_plus (c_x a) 40) (js_plus (c_y a) 20),
                       Dot (c_x b) (js_plus (c_y b) 20)])))"
proof -
  have parsed: "\<lparr>conn_from = f, conn_to = t\<rparr> \<in> set conns"
    if r: "fst (parseCircuitCode code e) = Inr (comps, conns)"
      and l: "line \<in> set (code_lines code)" and m: "connectionMatch line = Some (f, t)"
  proof -
    from r have "conns = List.map_filter connection_of_line (code_lines code)"
      by (simp add: parse_result_reset Let_def parse_lines_connections split: if_splits)
    moreover from m have "connection_of_line line = Some \<lparr>conn_from = f, conn_to = t\<rparr>"
      by (simp add: connection_of_line_def)
    ultimately show ?thesis
      using l by (force simp: List.map_filter_def)
  qed
  have drawn: "\<exists>a b. a \<in> set cs \<and> b \<in> set cs \<and> c_name a = conn_from conn \<and> c_name b = conn_to conn \<and>
         drawConnection svg conn cs =
           Inr (svg @ [Wire (js_plus (c_x a) 40) (js_plus (c_y a) 20) (c_x b) (js_plus (c_y b) 20),
                       Dot (js_plus (c_x a) 40) (js_plus (c_y a) 20),
                       Dot (c_x b) (js_plus (c_y b) 20)])"
    if "conn_from conn \<in> c_name ` set cs" and "conn_to conn \<in> c_name ` set cs"
  proof -
    from that obtain a b where a: "List.find (\<lambda>c. c_name c = conn_from conn) cs = Some a"
      and b: "List.find (\<lambda>c. c_name c = conn_to conn) cs = Some b"
      using find_None_name [of "conn_from conn" cs] find_None_name [of "conn_to conn" cs]
      by (cases "List.find (\<lambda>c. c_name c = conn_from conn) cs";
          cases "List.find (\<lambda>c. c_name c = conn_to conn) cs") auto
    from a have "a \<in> set cs \<and> c_name a = conn_from conn"
      by (auto simp: find_Some_iff)
    moreover from b have "b \<in> set cs \<and> c_name b = conn_to conn"
      by (auto simp: find_Some_iff)
    ultimately show ?thesis
      using drawConnection_draw [OF a b, of svg] by blast
  qed
  from parsed drawn show ?thesis
    using drawConnection_skip [of conn cs svg] by blast
qed

text \<open>
  The text \<open>R1: resistor 330 (250,100)\<close>, \<open>R1 -> X\<close>, \<open>R1 -> R1\<close>: the connection to the
  undeclared \<open>X\<close> is in the parsed list, drawing it leaves the scene as it is, and
  drawing the connection from \<open>R1\<close> to \<open>R1\<close> adds the wire and the two dots.
\<close>

theorem dangling_connection_parsed_not_drawn_witness:
  "fst (parseCircuitCode (''R1: resistor 330 (250,100)'' @ nl @ ''R1 -> X'' @ nl @ ''R1 -> R1'')
        new_engine) =
     Inr ([\<lparr>c_name = ''R1'', c_type = ''resistor'', c_value = ''330'',
             c_x = Num 250, c_y = Num 100\<rparr>],
          [\<lparr>conn_from = ''R1'', conn_to = ''X''\<rparr>, \<lparr>conn_from = ''R1'', conn_to = ''R1''\<rparr>]) \<and>
   drawConnection [GridDefs, GridRect] \<lparr>conn_from = ''R1'', conn_to = ''X''\<rparr>
     [\<lparr>c_name = ''R1'', c_type = ''resistor'', c_value = ''330'', c_x = Num 250, c_y = Num 100\<rparr>]
     = Inr [GridDefs, GridRect] \<and>
   drawConnection [GridDefs, GridRect] \<lparr>conn_from = ''R1'', conn_to = ''R1''\<rparr>
     [\<lparr>c_name = ''R1'', c_type = ''resistor'', c_value = ''330'', c_x = Num 250, c_y = Num 100\<rparr>]
     = Inr [GridDefs, GridRect, Wire (Num 290) (Num 120) (Num 250) (Num 120),
            Dot (Num 290) (Num 120), Dot (Num 250) (Num 120)]"
proof -
  let ?r1 = "\<lparr>c_name = ''R1'', c_type = ''resistor'', c_value = ''330'', c_x = Num 250, c_y = Num 100\<rparr>"
  have p: "fst (parseCircuitCode (''R1: resistor 330 (250,100)'' @ nl @ ''R1 -> X'' @ nl @ ''R1 -> R1'')
        new_engine) =
     Inr ([?r1], [\<lparr>conn_from = ''R1'', conn_to = ''X''\<rparr>, \<lparr>conn_from = ''R1'', conn_to = ''R1''\<rparr>])"
    by code_simp
  have dangling: "conn_from \<lparr>conn_from = ''R1'', conn_to = ''X''\<rparr> \<notin> c_name ` set [?r1] \<or>
      conn_to \<lparr>conn_from = ''R1'', conn_to = ''X''\<rparr> \<notin> c_name ` set [?r1]"
    by simp
  from dangling dangling_connection_parsed_not_drawn
    [of "''R1: resistor 330 (250,100)'' @ nl @ ''R1 -> X'' @ nl @ ''R1 -> R1''" new_engine
      "[?r1]" "[\<lparr>conn_from = ''R1'', conn_to = ''X''\<rparr>, \<lparr>conn_from = ''R1'', conn_to = ''R1''\<rparr>]"
      "''R1 -> X''" "''R1''" "''X''" "\<lparr>conn_from = ''R1'', conn_to = ''X''\<rparr>" "[?r1]"
      "[GridDefs, GridRect]"]
  have skip: "drawConnection [GridDefs, GridRect] \<lparr>conn_from = ''R1'', conn_to = ''X''\<rparr> [?r1]
     = Inr [GridDefs, GridRect]"
    by blast
  have draw: "drawConnection [GridDefs, GridRect] \<lparr>conn_from = ''R1'', conn_to = ''R1''\<rparr> [?r1]
     = Inr [GridDefs, GridRect, Wire (Num 290) (Num 120) (Num 250) (Num 120),
            Dot (Num 290) (Num 120), Dot (Num 250) (Num 120)]"
    by code_simp
  from p skip draw show ?thesis by blast
qed

section \<open>Diagnostics line by line\<close>

lemma validate_line_errors:
  "errors (validate_line p s) = errors s @ line_errors (componentNames s) p"
  by (simp add: validate_line_def line_errors_def Let_def split: option.splits)

lemma validate_line_names:
  "componentNames (validate_line p s) = componentNames s \<union> set_option (declared_name (snd p))"
  by (auto simp: validate_line_def declared_name_def name_of_line_def Let_def
      split: option.splits)

lemma validate_line_conns:
  "v_connections (validate_line p s) = v_connections s @ line_conns p"
  by (simp add: validate_line_def line_conns_def Let_def split: option.splits)

lemma declared_Nil: "declared [] = {}"
  by (simp add: declared_def List.map_filter_simps)

lemma declared_Cons: "declared (l # ls) = set_option (declared_name l) \<union> declared ls"
  by (cases "declared_name l") (simp_all add: declared_def List.map_filter_simps)

lemma vfold_Cons: "vfold (p # ps) s = vfold ps (validate_line p s)"
  by (simp add: vfold_def)

lemma vfold_names:
  "componentNames (vfold ps s) = componentNames s \<union> declared (map snd ps)"
  by (induction ps arbitrary: s)
     (auto simp: vfold_def validate_line_names declared_Nil declared_Cons)

lemma vfold_conns:
  "v_connections (vfold ps s) = v_connections s @ concat (map line_conns ps)"
  by (induction ps arbitrary: s) (auto simp: vfold_def validate_line_conns)

lemma line_errors_line: "d \<in> set (line_errors names p) \<Longrightarrow> diag_line d = Suc (fst p)"
  by (auto simp: line_errors_def Let_def split: if_splits option.splits)

lemma line_conns_line: "(f, t, n) \<in> set (line_conns p) \<Longrightarrow> n = Suc (fst p)"
  by (auto simp: line_conns_def Let_def split: if_splits option.splits)

lemma check_connection_line: "d \<in> set (check_connection names (f, t, n)) \<Longrightarrow> diag_line d = n"
  by (auto simp: check_connection_def split: if_splits)

lemma filter_line_errors:
  "filter (\<lambda>d. diag_line d = Suc i) (line_errors names (j, l)) =
     (if j = i then line_errors names (j, l) else [])"
proof -
  have "\<forall>d \<in> set (line_errors names (j, l)). diag_line d = Suc j"
    using line_errors_line [of _ names "(j, l)"] by simp
  then show ?thesis
    by (auto simp: filter_empty_conv filter_id_conv)
qed

lemma filter_checked_conns:
  "filter (\<lambda>d. diag_line d = Suc i) (concat (map (check_connection names) (line_conns (j, l)))) =
     (if j = i then concat (map (check_connection names) (line_conns (j, l))) else [])"
proof -
  have "\<forall>d \<in> set (concat (map (check_connection names) (line_conns (j, l)))). diag_line d = Suc j"
    using line_conns_line [of _ _ _ "(j, l)"] check_connection_line [of _ names]
    by fastforce
  then show ?thesis
    by (auto simp: filter_empty_conv filter_id_conv)
qed

text \<open>The errors of the first pass that carry the number of line \<open>i\<close>.\<close>

lemma nth_Cons_later: "k < i \<Longrightarrow> (l # ls) ! (i - k) = ls ! (i - Suc k)"
proof -
  assume "k < i"
  then have "i - k = Suc (i - Suc k)" by simp
  then show ?thesis by simp
qed

lemma take_Cons_later: "k < i \<Longrightarrow> take (i - k) (l # ls) = l # take (i - Suc k) ls"
proof -
  assume "k < i"
  then have "i - k = Suc (i - Suc k)" by simp
  then show ?thesis by simp
qed

lemma vfold_errors_of_line:
  "filter (\<lambda>d. diag_line d = Suc i) (errors (vfold (enumerate k ls) s)) =
     filter (\<lambda>d. diag_line d = Suc i) (errors s) @
     (if k \<le> i \<and> i < k + length ls
      then line_errors (componentNames s \<union> declared (take (i - k) ls)) (i, ls ! (i - k))
      else [])"
proof (induction ls arbitrary: k s)
  case Nil
  then show ?case by (auto simp: vfold_def)
next
  case (Cons l ls)
  let ?s = "validate_line (k, l) s"
  have main: "filter (\<lambda>d. diag_line d = Suc i) (errors (vfold (enumerate k (l # ls)) s)) =
      filter (\<lambda>d. diag_line d = Suc i) (errors s) @
      (if k = i then line_errors (componentNames s) (k, l) else []) @
      (if Suc k \<le> i \<and> i < Suc k + length ls
       then line_errors (componentNames s \<union> set_option (declared_name l) \<union>
              declared (take (i - Suc k) ls)) (i, ls ! (i - Suc k))
       else [])"
    by (simp add: vfold_Cons Cons.IH validate_line_errors filter_line_errors
        validate_line_names)
  consider "i < k" | "i = k" | "k < i" by linarith
  then show ?case
  proof cases
    case 1
    then show ?thesis unfolding main by simp
  next
    case 2
    then show ?thesis unfolding main by (simp add: declared_Nil)
  next
    case 3
    then show ?thesis
      unfolding main take_Cons_later [OF 3] nth_Cons_later [OF 3]
      by (simp add: declared_Cons Un_assoc)
  qed
qed

text \<open>The diagnostics of the second pass that carry the number of line \<open>i\<close>.\<close>

lemma conns_diagnostics_of_line:
  "filter (\<lambda>d. diag_line d = Suc i)
     (concat (map (check_connection names) (concat (map line_conns (enumerate k ls))))) =
     (if k \<le> i \<and> i < k + length ls
      then concat (map (check_connection names) (line_conns (i, ls ! (i - k))))
      else [])"
proof (induction ls arbitrary: k)
  case Nil
  then show ?case by auto
next
  case (Cons l ls)
  have main: "filter (\<lambda>d. diag_line d = Suc i)
      (concat (map (check_connection names) (concat (map line_conns (enumerate k (l # ls)))))) =
      (if k = i then concat (map (check_connection names) (line_conns (k, l))) else []) @
      (if Suc k \<le> i \<and> i < Suc k + length ls
       then concat (map (check_connection names) (line_conns (i, ls ! (i - Suc k))))
       else [])"
    by (simp add: Cons.IH filter_checked_conns)
  consider "i < k" | "i = k" | "k < i" by linarith
  then show ?case
  proof cases
    case 1
    then show ?thesis unfolding main by simp
  next
    case 2
    then show ?thesis unfolding main by simp
  next
    case 3
    then show ?thesis
      unfolding main nth_Cons_later [OF 3] by simp
  qed
qed

lemma validateCircuitCode_unfold:
  "validateCircuitCode code =
     errors (vfold (enumerate 0 (split_nl code))
        \<lparr>errors = [], componentNames = {}, v_connections = []\<rparr>) @
     concat (map (check_connection (declared (split_nl code)))
        (concat (map line_conns (enumerate 0 (split_nl code)))))"
  by (simp add: validateCircuitCode_def validate_lines_def vfold_def [symmetric] Let_def
      vfold_names vfold_conns)

lemma diagnostics_of_line_eq:
  "diagnostics_of_line (validateCircuitCode code) i =
     (if i < length (split_nl code)
      then line_errors (declared (take i (split_nl code))) (i, split_nl code ! i) @
           concat (map (check_connection (declared (split_nl code)))
             (line_conns (i, split_nl code ! i)))
      else [])"
  by (simp add: diagnostics_of_line_def validateCircuitCode_unfold vfold_errors_of_line
      conns_diagnostics_of_line)

lemma diagnostics_of_line_expected:
  "diagnostics_of_line (validateCircuitCode code) i = expected_diagnostics code i"
  by (simp add: diagnostics_of_line_eq expected_diagnostics_def line_errors_def line_conns_def
      check_connection_def Let_def split: option.splits)

lemma expected_diagnostics_offending:
  "(expected_diagnostics code i \<noteq> []) = offending code i"
  by (auto simp: expected_diagnostics_def offending_def Let_def split: option.splits)

lemma expected_diagnostics_length: "length (expected_diagnostics code i) \<le> 2"
  by (simp add: expected_diagnostics_def Let_def split: option.splits)

lemma validate_diag_line_pos: "d \<in> set (validateCircuitCode code) \<Longrightarrow> 0 < diag_line d"
proof -
  assume d: "d \<in> set (validateCircuitCode code)"
  have e: "d \<in> set (errors (vfold ps s)) \<Longrightarrow> \<forall>d \<in> set (errors s). 0 < diag_line d \<Longrightarrow> 0 < diag_line d"
    for ps s
  proof (induction ps arbitrary: s)
    case Nil
    then show ?case by (simp add: vfold_def)
  next
    case (Cons p ps)
    have "\<forall>d \<in> set (errors (validate_line p s)). 0 < diag_line d"
      using Cons.prems(2) line_errors_line [of _ "componentNames s" p]
      by (auto simp: validate_line_errors)
    with Cons.IH [of "validate_line p s"] Cons.prems(1) show ?case
      by (simp add: vfold_Cons)
  qed
  have c: "d \<in> set (concat (map (check_connection names) (concat (map line_conns ps)))) \<Longrightarrow>
      0 < diag_line d" for names ps
    using line_conns_line check_connection_line by fastforce
  from d e c show ?thesis
    unfolding validateCircuitCode_unfold by fastforce
qed

text \<open>
  Claim C5, as the code has it. \<open>validateCircuitCode\<close> is a function of the text alone
  and returns a list for every text. For every line the diagnostics with its number
  are those due for the line: at least one and at most two when the line is offending
  (two for a component line that repeats a name and has an unknown type, and for a
  connection line with both endpoints undeclared), none when it is not. Every
  diagnostic is of one of the four kinds and belongs to an offending line, and the
  list is empty exactly when no line is offending.
\<close>

theorem validator_diagnostics_per_line:
  "diagnostics_of_line (validateCircuitCode code) i = expected_diagnostics code i \<and>
   (offending code i \<longrightarrow>
      1 \<le> length (diagnostics_of_line (validateCircuitCode code) i) \<and>
      length (diagnostics_of_line (validateCircuitCode code) i) \<le> 2) \<and>
   (\<not> offending code i \<longrightarrow> diagnostics_of_line (validateCircuitCode code) i = []) \<and>
   (\<forall>d \<in> set (validateCircuitCode code). 0 < diag_line d \<and> offending code (diag_line d - 1)) \<and>
   ((validateCircuitCode code = []) = (\<forall>j. \<not> offending code j))"
proof -
  have eq: "diagnostics_of_line (validateCircuitCode code) j = expected_diagnostics code j" for j
    by (rule diagnostics_of_line_expected)
  have off: "(diagnostics_of_line (validateCircuitCode code) j \<noteq> []) = offending code j" for j
    by (simp add: eq expected_diagnostics_offending)
  have len: "length (diagnostics_of_line (validateCircuitCode code) j) \<le> 2" for j
    by (simp add: eq expected_diagnostics_length)
  have one: "1 \<le> length (diagnostics_of_line (validateCircuitCode code) i)" if "offending code i"
    using that off [of i] by (cases "diagnostics_of_line (validateCircuitCode code) i") simp_all
  have each: "0 < diag_line d \<and> offending code (diag_line d - 1)"
    if d: "d \<in> set (validateCircuitCode code)" for d
  proof -
    from d have pos: "0 < diag_line d" by (rule validate_diag_line_pos)
    then have "d \<in> set (diagnostics_of_line (validateCircuitCode code) (diag_line d - 1))"
      using d by (simp add: diagnostics_of_line_def)
    then have "diagnostics_of_line (validateCircuitCode code) (diag_line d - 1) \<noteq> []"
      by auto
    with pos off show ?thesis by simp
  qed
  have empty: "(validateCircuitCode code = []) = (\<forall>j. \<not> offending code j)"
  proof
    assume "validateCircuitCode code = []"
    then have "diagnostics_of_line (validateCircuitCode code) j = []" for j
      by (simp add: diagnostics_of_line_def)
    with off show "\<forall>j. \<not> offending code j" by simp
  next
    assume none: "\<forall>j. \<not> offending code j"
    show "validateCircuitCode code = []"
    proof (cases "validateCircuitCode code")
      case Nil
      then show ?thesis .
    next
      case (Cons d ds)
      then have "d \<in> set (validateCircuitCode code)" by simp
      with each none show ?thesis by blast
    qed
  qed
  from eq [of i] off [of i] len [of i] one each empty show ?thesis by blast
qed

text \<open>
  A text of six lines: a component, a component that repeats its name with an unknown
  type, a blank line, a comment, a connection to an undeclared name, and a line of
  neither grammar. The first line is not offending and has no diagnostic; the second
  is offending and has two.
\<close>

theorem validator_diagnostics_per_line_witness:
  "validateCircuitCode (''A: gyro'' @ nl @ ''A: foo 1k'' @ nl @ '' '' @ nl @ ''// c'' @ nl @
       ''A -> B'' @ nl @ ''what is this'') =
     [DuplicateName 2 ''A'', UnknownType 2 ''foo'', InvalidSyntax 6, NotFound 5 ''B''] \<and>
   diagnostics_of_line (validateCircuitCode (''A: gyro'' @ nl @ ''A: foo 1k'' @ nl @ '' '' @ nl @
       ''// c'' @ nl @ ''A -> B'' @ nl @ ''what is this'')) 0 = [] \<and>
   length (diagnostics_of_line (validateCircuitCode (''A: gyro'' @ nl @ ''A: foo 1k'' @ nl @ '' '' @ nl @
       ''// c'' @ nl @ ''A -> B'' @ nl @ ''what is this'')) 1) \<le> 2 \<and>
   1 \<le> length (diagnostics_of_line (validateCircuitCode (''A: gyro'' @ nl @ ''A: foo 1k'' @ nl @ '' '' @ nl @
       ''// c'' @ nl @ ''A -> B'' @ nl @ ''what is this'')) 1)"
proof -
  let ?code = "''A: gyro'' @ nl @ ''A: foo 1k'' @ nl @ '' '' @ nl @ ''// c'' @ nl @
       ''A -> B'' @ nl @ ''what is this''"
  have v: "validateCircuitCode ?code =
      [DuplicateName 2 ''A'', UnknownType 2 ''foo'', InvalidSyntax 6, NotFound 5 ''B'']"
    by code_simp
  have clean: "\<not> offending ?code 0"
    by code_simp
  have off: "offending ?code 1"
    by code_simp
  from clean validator_diagnostics_per_line [of ?code 0]
  have a: "diagnostics_of_line (validateCircuitCode ?code) 0 = []"
    by blast
  from off validator_diagnostics_per_line [of ?code 1]
  have b: "1 \<le> length (diagnostics_of_line (validateCircuitCode ?code) 1) \<and>
      length (diagnostics_of_line (validateCircuitCode ?code) 1) \<le> 2"
    by blast
  from v a b show ?thesis by blast
qed

text \<open>
  Claim C5 as stated fails on the text \<open>A -> B\<close>: its only line is offending and gets
  two diagnostics, one for each endpoint. So does the second line of \<open>A: foo\<close>,
  \<open>A: bar\<close>, for the repeated name and for the unknown type.
\<close>

theorem validator_two_diagnostics_for_one_line:
  "offending ''A -> B'' 0 \<and>
   validateCircuitCode ''A -> B'' = [NotFound 1 ''A'', NotFound 1 ''B''] \<and>
   offending (''A: foo'' @ nl @ ''A: bar'') 1 \<and>
   validateCircuitCode (''A: foo'' @ nl @ ''A: bar'') =
     [UnknownType 1 ''foo'', DuplicateName 2 ''A'', UnknownType 2 ''bar'']"
  by code_simp

section \<open>The zoom range and the zoom step\<close>

text \<open>Rounding to the nearest integer moves a number by at most one half.\<close>

lemma round_even_bounds:
  "of_int \<lfloor>q\<rfloor> \<le> (of_int (round_even q) :: rat)"
  "(of_int (round_even q) :: rat) \<le> of_int \<lfloor>q\<rfloor> + 1"
  "\<bar>of_int (round_even q) - q\<bar> \<le> 1 / 2"
proof -
  have f: "of_int \<lfloor>q\<rfloor> \<le> q" "q < of_int \<lfloor>q\<rfloor> + 1"
    by linarith+
  show "of_int \<lfloor>q\<rfloor> \<le> (of_int (round_even q) :: rat)"
    by (simp add: round_even_def Let_def)
  show "(of_int (round_even q) :: rat) \<le> of_int \<lfloor>q\<rfloor> + 1"
    by (simp add: round_even_def Let_def)
  show "\<bar>of_int (round_even q) - q\<bar> \<le> 1 / 2"
  proof -
    consider "q - of_int \<lfloor>q\<rfloor> < 1 / 2" | "1 / 2 < q - of_int \<lfloor>q\<rfloor>"
      | "q - of_int \<lfloor>q\<rfloor> = 1 / 2"
      by linarith
    then show ?thesis
    proof cases
      case 1
      then have "round_even q = \<lfloor>q\<rfloor>"
        by (simp add: round_even_def Let_def)
      with 1 f show ?thesis by simp
    next
      case 2
      then have "round_even q = \<lfloor>q\<rfloor> + 1"
        by (simp add: round_even_def Let_def)
      with 2 f show ?thesis by simp
    next
      case 3
      then have "round_even q = \<lfloor>q\<rfloor> \<or> round_even q = \<lfloor>q\<rfloor> + 1"
        by (simp add: round_even_def Let_def)
      with 3 show ?thesis by auto
    qed
  qed
qed

lemma ulp_pos: "0 < ulp x"
  by (simp add: ulp_def)

lemma ulp_le: "x < 4 \<Longrightarrow> ulp x \<le> 1 / 2251799813685248"
  by (simp add: ulp_def)

text \<open>The rounding error of \<open>fl\<close> is at most half a unit in the last place.\<close>

lemma fl_error: "\<bar>fl x - x\<bar> \<le> ulp x / 2"
proof -
  let ?u = "ulp x"
  have u: "0 < ?u" by (rule ulp_pos)
  have "fl x - x = ?u * (of_int (round_even (x / ?u)) - x / ?u)"
    using u by (simp add: fl_def algebra_simps)
  then have "\<bar>fl x - x\<bar> = ?u * \<bar>of_int (round_even (x / ?u)) - x / ?u\<bar>"
    using u by (simp add: abs_mult)
  also have "\<dots> \<le> ?u * (1 / 2)"
    using u round_even_bounds(3) [of "x / ?u"] by (intro mult_left_mono) simp_all
  finally show ?thesis by simp
qed

text \<open>
  A multiple of the unit that lies below (above) a number lies below (above) the
  rounded number: rounding does not cross a double.
\<close>

lemma fl_ge_multiple:
  assumes "ulp x * of_int k \<le> x"
  shows "ulp x * of_int k \<le> fl x"
proof -
  have u: "0 < ulp x" by (rule ulp_pos)
  from assms u have "of_int k \<le> x / ulp x"
    by (simp add: pos_le_divide_eq mult.commute)
  then have "k \<le> \<lfloor>x / ulp x\<rfloor>"
    by (simp add: le_floor_iff)
  then have "(of_int k :: rat) \<le> of_int \<lfloor>x / ulp x\<rfloor>"
    by simp
  also have "\<dots> \<le> of_int (round_even (x / ulp x))"
    by (rule round_even_bounds(1))
  finally show ?thesis
    using u by (simp add: fl_def)
qed

lemma fl_le_multiple:
  assumes "x \<le> ulp x * of_int k"
  shows "fl x \<le> ulp x * of_int k"
proof -
  have u: "0 < ulp x" by (rule ulp_pos)
  from assms u have "x / ulp x \<le> of_int k"
    by (simp add: pos_divide_le_eq mult.commute)
  then have "\<lfloor>x / ulp x\<rfloor> < k \<or> x / ulp x = of_int k"
    by (metis floor_less_iff le_less)
  then have "round_even (x / ulp x) \<le> k"
  proof
    assume "\<lfloor>x / ulp x\<rfloor> < k"
    moreover have "round_even (x / ulp x) \<le> \<lfloor>x / ulp x\<rfloor> + 1"
      using round_even_bounds(2) [of "x / ulp x"] by linarith
    ultimately show ?thesis by linarith
  next
    assume "x / ulp x = of_int k"
    then show ?thesis by (simp add: round_even_def)
  qed
  then have "(of_int (round_even (x / ulp x)) :: rat) \<le> of_int k"
    by simp
  then show ?thesis
    using u by (simp add: fl_def)
qed

lemma fl_ge_half: "1 / 2 \<le> x \<Longrightarrow> 1 / 2 \<le> fl x"
proof -
  assume x: "1 / 2 \<le> x"
  have "\<exists>k. ulp x * of_int k = 1 / 2"
  proof -
    from x have "ulp x * of_int 4503599627370496 = 1 / 2 \<or> ulp x * of_int 2251799813685248 = 1 / 2
        \<or> ulp x * of_int 1125899906842624 = 1 / 2"
      by (simp add: ulp_def)
    then show ?thesis by blast
  qed
  then obtain k where k: "ulp x * of_int k = 1 / 2" ..
  with x fl_ge_multiple [of x k] show ?thesis by simp
qed

lemma fl_le_three: "x \<le> 3 \<Longrightarrow> fl x \<le> 3"
proof -
  assume x: "x \<le> 3"
  have "\<exists>k. ulp x * of_int k = 3"
  proof -
    have "ulp x * of_int 54043195528445952 = 3 \<or> ulp x * of_int 27021597764222976 = 3
        \<or> ulp x * of_int 13510798882111488 = 3 \<or> ulp x * of_int 6755399441055744 = 3"
      by (simp add: ulp_def)
    then show ?thesis by blast
  qed
  then obtain k where k: "ulp x * of_int k = 3" ..
  with x fl_le_multiple [of x k] show ?thesis by simp
qed

lemma tenth_bounds: "1 / 10 < tenth" "tenth < 1 / 10 + 1 / 4503599627370496"
  by (simp_all add: tenth_def)

lemma zoomIn_range:
  assumes "1 / 2 \<le> zoom e" "zoom e \<le> 3"
  shows "1 / 2 \<le> zoom (zoomIn e)" "zoom (zoomIn e) \<le> 3"
proof -
  from assms tenth_bounds(1) have "1 / 2 \<le> zoom e + tenth" by linarith
  then have "1 / 2 \<le> fl (zoom e + tenth)" by (rule fl_ge_half)
  then show "1 / 2 \<le> zoom (zoomIn e)" by (simp add: zoomIn_def)
  show "zoom (zoomIn e) \<le> 3" by (simp add: zoomIn_def)
qed

lemma zoomOut_range:
  assumes "1 / 2 \<le> zoom e" "zoom e \<le> 3"
  shows "1 / 2 \<le> zoom (zoomOut e)" "zoom (zoomOut e) \<le> 3"
proof -
  from assms tenth_bounds(1) have "zoom e - tenth \<le> 3" by linarith
  then have "fl (zoom e - tenth) \<le> 3" by (rule fl_le_three)
  then show "zoom (zoomOut e) \<le> 3" by (simp add: zoomOut_def)
  show "1 / 2 \<le> zoom (zoomOut e)" by (simp add: zoomOut_def)
qed

lemma zoom_calls_range:
  assumes "1 / 2 \<le> zoom e" "zoom e \<le> 3"
  shows "1 / 2 \<le> zoom (zoom_calls cs e) \<and> zoom (zoom_calls cs e) \<le> 3"
  using assms
proof (induction cs arbitrary: e)
  case Nil
  then show ?case by (simp add: zoom_calls_def)
next
  case (Cons c cs)
  have step: "1 / 2 \<le> zoom (zoom_step e c) \<and> zoom (zoom_step e c) \<le> 3"
    using Cons.prems zoomIn_range [of e] zoomOut_range [of e] by (cases c) simp_all
  have "zoom_calls (c # cs) e = zoom_calls cs (zoom_step e c)"
    by (simp add: zoom_calls_def)
  with Cons.IH [of "zoom_step e c"] step show ?case by simp
qed

lemma zoom_calls_frame:
  "components (zoom_calls cs e) = components e \<and> connections (zoom_calls cs e) = connections e"
proof (induction cs arbitrary: e)
  case Nil
  then show ?case by (simp add: zoom_calls_def)
next
  case (Cons c cs)
  have "zoom_calls (c # cs) e = zoom_calls cs (zoom_step e c)"
    by (simp add: zoom_calls_def)
  moreover have "components (zoom_step e c) = components e \<and>
      connections (zoom_step e c) = connections e"
    by (cases c) (simp_all add: zoomIn_def zoomOut_def)
  ultimately show ?case using Cons.IH [of "zoom_step e c"] by simp
qed

lemma fl_near:
  assumes "x < 4"
  shows "x - 1 / 4503599627370496 \<le> fl x" and "fl x \<le> x + 1 / 4503599627370496"
proof -
  from assms have "ulp x \<le> 1 / 2251799813685248" by (rule ulp_le)
  with fl_error [of x] show "x - 1 / 4503599627370496 \<le> fl x"
    and "fl x \<le> x + 1 / 4503599627370496"
    by linarith+
qed

text \<open>
  One \<open>zoomIn\<close> on a factor of at most 3: the factor does not go down, it goes up by
  less than \<open>0.1 + 2^-51\<close>, and it ends at the clamp 3 or within \<open>2^-51\<close> of \<open>0.1\<close>
  above where it was.
\<close>

lemma zoomIn_step:
  assumes "zoom e \<le> 3"
  shows "zoom e \<le> zoom (zoomIn e)"
    and "zoom (zoomIn e) < zoom e + 1 / 10 + 1 / 2251799813685248"
    and "zoom (zoomIn e) = 3 \<or> zoom e + 1 / 10 - 1 / 2251799813685248 < zoom (zoomIn e)"
proof -
  let ?x = "zoom e + tenth"
  from assms tenth_bounds(2) have "?x < 4" by linarith
  then have lo: "?x - 1 / 4503599627370496 \<le> fl ?x" and hi: "fl ?x \<le> ?x + 1 / 4503599627370496"
    by (rule fl_near)+
  have z: "zoom (zoomIn e) = min (fl ?x) 3"
    by (simp add: zoomIn_def)
  from lo tenth_bounds(1) have above: "zoom e + 1 / 10 - 1 / 2251799813685248 < fl ?x"
    by linarith
  then have "zoom e < fl ?x" by linarith
  with assms show "zoom e \<le> zoom (zoomIn e)"
    unfolding z by simp
  from hi tenth_bounds(2) have "fl ?x < zoom e + 1 / 10 + 1 / 2251799813685248"
    by linarith
  then show "zoom (zoomIn e) < zoom e + 1 / 10 + 1 / 2251799813685248"
    unfolding z by simp
  from above show "zoom (zoomIn e) = 3 \<or> zoom e + 1 / 10 - 1 / 2251799813685248 < zoom (zoomIn e)"
    unfolding z by (simp add: min_def)
qed

text \<open>The same for one \<open>zoomOut\<close> on a factor between 0.5 and 3, downwards.\<close>

lemma zoomOut_step:
  assumes "1 / 2 \<le> zoom e" and "zoom e \<le> 3"
  shows "zoom (zoomOut e) \<le> zoom e"
    and "zoom e - 1 / 10 - 1 / 2251799813685248 < zoom (zoomOut e)"
    and "zoom (zoomOut e) = 1 / 2 \<or> zoom (zoomOut e) < zoom e - 1 / 10 + 1 / 2251799813685248"
proof -
  let ?x = "zoom e - tenth"
  from assms(2) tenth_bounds(1) have "?x < 4" by linarith
  then have lo: "?x - 1 / 4503599627370496 \<le> fl ?x" and hi: "fl ?x \<le> ?x + 1 / 4503599627370496"
    by (rule fl_near)+
  have z: "zoom (zoomOut e) = max (fl ?x) (1 / 2)"
    by (simp add: zoomOut_def)
  from hi tenth_bounds(1) have below: "fl ?x < zoom e - 1 / 10 + 1 / 2251799813685248"
    by linarith
  then have "fl ?x < zoom e" by linarith
  with assms(1) show "zoom (zoomOut e) \<le> zoom e"
    unfolding z by simp
  from lo tenth_bounds(2) have "zoom e - 1 / 10 - 1 / 2251799813685248 < fl ?x"
    by linarith
  then show "zoom e - 1 / 10 - 1 / 2251799813685248 < zoom (zoomOut e)"
    unfolding z by simp
  from below show "zoom (zoomOut e) = 1 / 2 \<or>
      zoom (zoomOut e) < zoom e - 1 / 10 + 1 / 2251799813685248"
    unfolding z by (simp add: max_def)
qed

text \<open>
  Claim C6, as the code has it. From the initial zoom factor 1, after every finite
  sequence of \<open>zoomIn\<close> and \<open>zoomOut\<close> calls the zoom factor lies between 0.5 and 3.
  In every state so reached a \<open>zoomIn\<close> does not lower the factor and raises it by less
  than \<open>0.1 + 2^-51\<close>, and a \<open>zoomOut\<close> does not raise it and lowers it by less than
  \<open>0.1 + 2^-51\<close>: the step is the double \<open>0.1\<close> and the sum is rounded to a double, which
  can add up to more than 0.1. A \<open>zoomIn\<close> that does not end at the clamp 3 raises the
  factor by more than \<open>0.1 - 2^-51\<close>, and a \<open>zoomOut\<close> that does not end at the clamp 0.5
  lowers it by more than \<open>0.1 - 2^-51\<close>. The sum and the difference that the two methods
  form lie between \<open>1/4\<close> and \<open>4\<close>, where \<open>fl\<close> is the rounding of doubles. No sequence
  of zoom calls changes the component list or the connection list of the engine, so
  the stored coordinates stay as they are.
\<close>

theorem zoom_clamped_steps_rounded:
  "1 / 2 \<le> zoom (zoom_calls cs new_engine) \<and> zoom (zoom_calls cs new_engine) \<le> 3 \<and>
   1 / 4 \<le> zoom (zoom_calls cs new_engine) - tenth \<and>
   zoom (zoom_calls cs new_engine) + tenth < 4 \<and>
   zoom (zoom_calls cs new_engine) \<le> zoom (zoomIn (zoom_calls cs new_engine)) \<and>
   zoom (zoomIn (zoom_calls cs new_engine)) <
     zoom (zoom_calls cs new_engine) + 1 / 10 + 1 / 2251799813685248 \<and>
   (zoom (zoomIn (zoom_calls cs new_engine)) = 3 \<or>
    zoom (zoom_calls cs new_engine) + 1 / 10 - 1 / 2251799813685248 <
      zoom (zoomIn (zoom_calls cs new_engine))) \<and>
   zoom (zoomOut (zoom_calls cs new_engine)) \<le> zoom (zoom_calls cs new_engine) \<and>
   zoom (zoom_calls cs new_engine) - 1 / 10 - 1 / 2251799813685248 <
     zoom (zoomOut (zoom_calls cs new_engine)) \<and>
   (zoom (zoomOut (zoom_calls cs new_engine)) = 1 / 2 \<or>
    zoom (zoomOut (zoom_calls cs new_engine)) <
      zoom (zoom_calls cs new_engine) - 1 / 10 + 1 / 2251799813685248) \<and>
   components (zoom_calls cs e) = components e \<and>
   connections (zoom_calls cs e) = connections e"
proof -
  let ?s = "zoom_calls cs new_engine"
  have start: "1 / 2 \<le> zoom new_engine" "zoom new_engine \<le> 3"
    by (simp_all add: new_engine_def)
  have range: "1 / 2 \<le> zoom ?s \<and> zoom ?s \<le> 3"
    using start by (rule zoom_calls_range)
  then have ge: "1 / 2 \<le> zoom ?s" and le: "zoom ?s \<le> 3"
    by simp_all
  note zin = zoomIn_step [OF le] and zout = zoomOut_step [OF ge le]
  have dom: "1 / 4 \<le> zoom ?s - tenth" "zoom ?s + tenth < 4"
    using range tenth_bounds by linarith+
  have frame: "components (zoom_calls cs e) = components e \<and>
      connections (zoom_calls cs e) = connections e"
    by (rule zoom_calls_frame)
  from range dom zin zout frame show ?thesis
    by blast
qed

text \<open>
  Three calls from the initial state, one in and two out, end at the double \<open>0.9\<close>,
  inside the range.
\<close>

theorem zoom_clamped_steps_rounded_witness:
  "zoom (zoom_calls [ZoomIn, ZoomOut, ZoomOut] new_engine) = 8106479329266893 / 9007199254740992 \<and>
   1 / 2 \<le> zoom (zoom_calls [ZoomIn, ZoomOut, ZoomOut] new_engine) \<and>
   zoom (zoom_calls [ZoomIn, ZoomOut, ZoomOut] new_engine) \<le> 3 \<and>
   components (zoom_calls [ZoomIn, ZoomOut, ZoomOut] new_engine) = []"
proof -
  have v: "zoom (zoom_calls [ZoomIn, ZoomOut, ZoomOut] new_engine) =
      8106479329266893 / 9007199254740992"
    by code_simp
  have c: "components new_engine = []"
    by (simp add: new_engine_def)
  from zoom_clamped_steps_rounded [of "[ZoomIn, ZoomOut, ZoomOut]" new_engine] v c
  show ?thesis by simp
qed

text \<open>
  Claim C6 as stated fails at the first call. The literal \<open>0.1\<close> is a double above one
  tenth, and the first \<open>zoomIn\<close> takes the zoom from 1 to the double \<open>1.1\<close>, which is more
  than that double above 1: in JavaScript \<open>(1 + 0.1) - 1 > 0.1\<close>.
\<close>

theorem zoomIn_step_exceeds_tenth:
  "1 / 10 < tenth \<and> zoom new_engine + tenth < zoom (zoomIn new_engine) \<and>
   zoom (zoomIn new_engine) = 2476979795053773 / 2251799813685248"
  by code_simp

section \<open>PNG export when the image does not decode\<close>

text \<open>
  Claim C7. When the browser cannot decode the serialised scene as an image, all that
  the export shows is the message \<open>Circuit exported as PNG successfully\<close>: no file is
  offered and no error is reported, since the image has no \<open>error\<close> handler and the
  \<open>catch\<close> of the page can only see what is thrown before \<open>exportPNG\<close> of the engine
  returns. When the image decodes, the same message is followed by the download.
\<close>

theorem exportPNG_decode_failure_silent:
  "exportPNG (\<lambda>m. False) svgData =
     [ShowMessage ''Circuit exported as PNG successfully'' ''success''] \<and>
   exportPNG (\<lambda>m. True) svgData =
     [ShowMessage ''Circuit exported as PNG successfully'' ''success'',
      Download ''circuit-diagram.png'']"
  by (simp add: exportPNG_def CircuitEngine_exportPNG_def fire_def)

section \<open>Connections come from connection lines only\<close>

text \<open>
  Claim C8. Every connection record in the result of \<open>parseCircuitCode\<close> comes from a
  line that matches the connection grammar \<open>NAME -> NAME\<close>: the connection list is the
  list of the records of the connection lines, in their order, and nothing else. The
  closing block of \<open>parseLine\<close> never appends a connection: the element at index
  \<open>length\<close> that its guard needs does not exist, and where the block is reached the
  component match that the guard also needs has failed, so \<open>parseLine\<close> is \<open>parseLine\<close>
  without that block.
\<close>

theorem connections_from_connection_lines_only:
  "(fst (parseCircuitCode code e) = Inr (comps, conns) \<longrightarrow>
      conns = List.map_filter connection_of_line (code_lines code) \<and>
      (\<forall>c \<in> set conns. \<exists>line \<in> set (code_lines code).
          connectionMatch line = Some (conn_from c, conn_to c))) \<and>
   nth_opt (components e) (length (components e)) = None \<and>
   parseLine line e = parseLine_explicit line e"
proof -
  have "conns = List.map_filter connection_of_line (code_lines code) \<and>
      (\<forall>c \<in> set conns. \<exists>line \<in> set (code_lines code).
          connectionMatch line = Some (conn_from c, conn_to c))"
    if r: "fst (parseCircuitCode code e) = Inr (comps, conns)"
  proof -
    from r have eq: "conns = List.map_filter connection_of_line (code_lines code)"
      by (simp add: parse_result_reset Let_def parse_lines_connections split: if_splits)
    have "\<exists>line \<in> set (code_lines code). connectionMatch line = Some (conn_from c, conn_to c)"
      if "c \<in> set conns" for c
    proof -
      from that eq obtain line where "line \<in> set (code_lines code)"
        and "connection_of_line line = Some c"
        by (auto simp: List.map_filter_def)
      then show ?thesis
        by (auto simp: connection_of_line_def split: option.splits)
    qed
    with eq show ?thesis by blast
  qed
  then show ?thesis
    by (simp add: nth_opt_length parseLine_explicit_eq)
qed

text \<open>
  A text with a line of neither grammar after a component (\<open>R2 resistor\<close>, where the
  closing block is entered): the only connection is the one of the connection line.
\<close>

theorem connections_from_connection_lines_only_witness:
  "fst (parseCircuitCode (''R1: resistor 1k'' @ nl @ ''R2 resistor'' @ nl @ ''R1 -> R2'') new_engine) =
     Inr ([\<lparr>c_name = ''R1'', c_type = ''resistor'', c_value = ''1k'',
              c_x = PosObj 100 100, c_y = PosObj 100 100\<rparr>],
          [\<lparr>conn_from = ''R1'', conn_to = ''R2''\<rparr>]) \<and>
   [\<lparr>conn_from = ''R1'', conn_to = ''R2''\<rparr>] =
     List.map_filter connection_of_line
       (code_lines (''R1: resistor 1k'' @ nl @ ''R2 resistor'' @ nl @ ''R1 -> R2''))"
proof -
  have r: "fst (parseCircuitCode (''R1: resistor 1k'' @ nl @ ''R2 resistor'' @ nl @ ''R1 -> R2'') new_engine) =
     Inr ([\<lparr>c_name = ''R1'', c_type = ''resistor'', c_value = ''1k'',
              c_x = PosObj 100 100, c_y = PosObj 100 100\<rparr>],
          [\<lparr>conn_from = ''R1'', conn_to = ''R2''\<rparr>])"
    by code_simp
  from r connections_from_connection_lines_only
    [of "''R1: resistor 1k'' @ nl @ ''R2 resistor'' @ nl @ ''R1 -> R2''" new_engine
      "[\<lparr>c_name = ''R1'', c_type = ''resistor'', c_value = ''1k'',
              c_x = PosObj 100 100, c_y = PosObj 100 100\<rparr>]"
      "[\<lparr>conn_from = ''R1'', conn_to = ''R2''\<rparr>]"]
  show ?thesis by blast
qed

section \<open>Explicit coordinates\<close>

text \<open>
  A capture of \<open>(\d+)\<close> whose value is not zero is stored as that number; the value zero
  and an absent capture both give the object of \<open>autoPosition\<close>.
\<close>

lemma coordinate_cases:
  "coordinate e None = autoPosition e"
  "decimal ds = 0 \<Longrightarrow> coordinate e (Some ds) = autoPosition e"
  "decimal ds \<noteq> 0 \<Longrightarrow> coordinate e (Some ds) = number (decimal ds)"
  by (simp_all add: coordinate_def parseInt_def)

text \<open>
  A line that matches the component expression with a position whose two numbers are
  not zero yields the record with exactly those numbers.
\<close>

lemma explicit_position_stored:
  assumes "component_shape line n t (v, Some xs, Some ys)"
    and "decimal xs \<noteq> 0" and "decimal ys \<noteq> 0"
  shows "components (parseLine line e) = components e @
     [\<lparr>c_name = n, c_type = toLowerCase t, c_value = value_or_empty v,
       c_x = number (decimal xs), c_y = number (decimal ys)\<rparr>]"
proof -
  from assms(1) have "componentMatch line = Some (n, t, v, Some xs, Some ys)"
    by (simp add: componentMatch_iff)
  with assms(2,3) show ?thesis
    by (simp add: parseLine_explicit_eq parseLine_explicit_def coordinate_cases)
qed

text \<open>
  Claim C9. A component line with the explicit position \<open>(0,0)\<close>: the record does not
  hold the number 0 in \<open>x\<close> or in \<open>y\<close>. Both fields hold the object \<open>{x: 100, y: 100}\<close>
  of the auto-position slot at index 0, while the position \<open>(250,0)\<close> keeps its 250 and
  loses its 0 in the same way.
\<close>

theorem explicit_zero_coordinate_replaced:
  "fst (parseCircuitCode ''R1: resistor 330 (0,0)'' new_engine) =
     Inr ([\<lparr>c_name = ''R1'', c_type = ''resistor'', c_value = ''330'',
              c_x = PosObj 100 100, c_y = PosObj 100 100\<rparr>], []) \<and>
   fst (parseCircuitCode ''R1: resistor 330 (250,0)'' new_engine) =
     Inr ([\<lparr>c_name = ''R1'', c_type = ''resistor'', c_value = ''330'',
              c_x = Num 250, c_y = PosObj 100 100\<rparr>], [])"
  by code_simp

section \<open>Two declarations of one name\<close>

text \<open>
  When every component has a type whose drawing method the class defines, the
  components are drawn one group each, in the order of the list.
\<close>

lemma forEach_drawComponent:
  assumes "\<forall>c \<in> set comps. draw_routine (c_type c) \<in> set defined_routines"
  shows "forEach drawComponent comps svg =
     (svg @ map (\<lambda>c. Group (draw_routine (c_type c)) c) comps, None)"
  using assms
  by (induction comps arbitrary: svg) (simp_all add: drawComponent_def)

text \<open>
  Claim C10. The name \<open>GYRO1\<close> is declared on two lines, first with type \<open>gyro\<close>, the
  line that the component library of the page inserts, then with type \<open>resistor\<close>.
  The parser keeps both records, in the order of the lines. The renderer draws
  neither: \<open>drawComponent\<close> calls \<open>this.drawGyro\<close> for the first record, a method that
  the class does not define, and \<open>generateCircuit\<close> ends with that \<open>TypeError\<close> before the
  second record is reached. The scene is left with the grid alone.
\<close>

theorem duplicate_name_not_drawn:
  "fst (parseCircuitCode (''GYRO1: gyro MPU6050'' @ nl @ ''GYRO1: resistor 1k'') new_engine) =
     Inr ([\<lparr>c_name = ''GYRO1'', c_type = ''gyro'', c_value = ''MPU6050'',
              c_x = PosObj 100 100, c_y = PosObj 100 100\<rparr>,
           \<lparr>c_name = ''GYRO1'', c_type = ''resistor'', c_value = ''1k'',
              c_x = PosObj 200 100, c_y = PosObj 200 100\<rparr>], []) \<and>
   generateCircuit
     [\<lparr>c_name = ''GYRO1'', c_type = ''gyro'', c_value = ''MPU6050'',
         c_x = PosObj 100 100, c_y = PosObj 100 100\<rparr>,
      \<lparr>c_name = ''GYRO1'', c_type = ''resistor'', c_value = ''1k'',
         c_x = PosObj 200 100, c_y = PosObj 200 100\<rparr>] [] =
     ([GridDefs, GridRect], Some (TypeError ''this.drawGyro is not a function''))"
  by code_simp

end
